theory Spec2Isabelle
  imports Main "HOL-Library.Sublist"
begin

section \<open>The manifest renderer \<^verbatim>\<open>scripts/render-templates.py\<close>\<close>

text \<open>
  The script loads the values of one environment from a YAML document, renders a fixed
  sequence of Jinja2 templates with contexts built from those values, writes each result
  into \<^verbatim>\<open><output-dir>/<environment>/\<close> and finally writes \<^verbatim>\<open>kustomization.yaml\<close>
  listing what it rendered.

  Everything the script does beyond computing values is explicit here: the file system is
  a value that every step takes and returns, and every exception or \<^verbatim>\<open>sys.exit\<close> is an
  \<open>Inl\<close> result. Output on \<^verbatim>\<open>stdout\<close> is left out: the interpreter is taken in its UTF-8
  mode (the POSIX locale, or \<^verbatim>\<open>-X utf8\<close>), where text files are UTF-8 and strict, and names
  of files and the standard output are encoded with \<^verbatim>\<open>surrogateescape\<close>. No \<^verbatim>\<open>print\<close> of the
  script raises there: what is printed is constant text, the environment, and paths that
  \<^verbatim>\<open>mkdir\<close> or \<^verbatim>\<open>open\<close> have accepted before.
\<close>

subsection \<open>Python values and exceptions\<close>

text \<open>
  What \<^verbatim>\<open>yaml.safe_load\<close> can return: null, booleans, integers, strings, sequences and
  mappings. Mapping keys are strings, and a mapping keeps its insertion order, as a Python
  \<^verbatim>\<open>dict\<close> does. Other YAML scalars (floats, timestamps) are outside the model.

  A Python \<^verbatim>\<open>str\<close> is modelled by its bytes in UTF-8, where a lone surrogate code point
  (which a \<^verbatim>\<open>str\<close> may hold, and which a YAML document can write with an escape) stands as the three
  bytes that the error handler \<^verbatim>\<open>surrogatepass\<close> gives it. Every \<^verbatim>\<open>str\<close> has exactly one such
  byte string, and searching, splitting and joining at ASCII characters is the same on
  both sides.

  \<open>VLambda\<close> is the function object that \<^verbatim>\<open>load_values\<close> stores under \<^verbatim>\<open>'b64encode'\<close>.
  \<open>VObject n\<close> is any other object that is not data, named by \<open>n\<close>: a global of the Jinja2
  environment, or what a call of one returns.
\<close>

datatype pyval =
    VNone
  | VBool bool
  | VInt int
  | VStr string
  | VList "pyval list"
  | VDict "(string \<times> pyval) list"
  | VLambda
  | VObject string

type_synonym dict = "(string \<times> pyval) list"

datatype failure =
    SystemExit int
  | KeyError string
  | TypeError
  | AttributeError
  | ValueError
  | UnicodeEncodeError
  | FileExistsError
  | FileNotFoundError
  | IsADirectoryError
  | NotADirectoryError
  | YAMLError
  | TemplateNotFound string
  | TemplateSyntaxError
  | UndefinedError

text \<open>The exit status of the process: 0 when \<^verbatim>\<open>main\<close> returns, the argument of
  \<^verbatim>\<open>sys.exit\<close>, and 1 for an exception that nobody catches.\<close>

fun exit_status :: "failure + 'a \<Rightarrow> int" where
  "exit_status (Inr _) = 0"
| "exit_status (Inl (SystemExit n)) = n"
| "exit_status (Inl _) = 1"

text \<open>The exceptions that are an \<^verbatim>\<open>OSError\<close>.\<close>

definition is_OSError :: "failure \<Rightarrow> bool" where
  "is_OSError e =
     (e = FileExistsError \<or> e = FileNotFoundError \<or> e = IsADirectoryError
      \<or> e = NotADirectoryError)"

subsection \<open>Dictionaries\<close>

text \<open>\<^verbatim>\<open>d[k]\<close> and \<^verbatim>\<open>k in d\<close> read the dictionary through \<open>map_of\<close>.
  \<^verbatim>\<open>d[k] = v\<close> replaces the value of a key that is there and appends a new key.\<close>

fun dict_set :: "dict \<Rightarrow> string \<Rightarrow> pyval \<Rightarrow> dict" where
  "dict_set [] k v = [(k, v)]"
| "dict_set ((k', v') # d) k v =
     (if k' = k then (k, v) # d else (k', v') # dict_set d k v)"

text \<open>\<^verbatim>\<open>{**a, **b}\<close>: the items of \<open>a\<close>, then those of \<open>b\<close> stored one by one.\<close>

definition dict_merge :: "dict \<Rightarrow> dict \<Rightarrow> dict" where
  "dict_merge a b = fold (\<lambda>(k, v) d. dict_set d k v) b a"

text \<open>\<^verbatim>\<open>d[k]\<close> raises \<^verbatim>\<open>KeyError\<close> on a missing key.\<close>

definition dict_item :: "dict \<Rightarrow> string \<Rightarrow> failure + pyval" where
  "dict_item d k = (case map_of d k of None \<Rightarrow> Inl (KeyError k) | Some v \<Rightarrow> Inr v)"

text \<open>Truth of a value in an \<^verbatim>\<open>if\<close>.\<close>

fun truthy :: "pyval \<Rightarrow> bool" where
  "truthy VNone = False"
| "truthy (VBool b) = b"
| "truthy (VInt n) = (n \<noteq> 0)"
| "truthy (VStr s) = (s \<noteq> [])"
| "truthy (VList xs) = (xs \<noteq> [])"
| "truthy (VDict d) = (d \<noteq> [])"
| "truthy VLambda = True"
| "truthy (VObject n) = True"

subsection \<open>Strings\<close>

text \<open>\<^verbatim>\<open>s.replace(old, new)\<close>: every occurrence of \<open>old\<close>, left to right, without
  overlaps; an empty \<open>old\<close> matches before every character and at the end.\<close>

function py_replace :: "string \<Rightarrow> string \<Rightarrow> string \<Rightarrow> string" where
  "py_replace old new s =
     (if old = [] then new @ concat (map (\<lambda>c. c # new) s)
      else if s = [] then []
      else if prefix old s then new @ py_replace old new (drop (length old) s)
      else hd s # py_replace old new (tl s))"
  by pat_completeness auto
termination
  by (relation "measure (\<lambda>(old, new, s). length s)") (auto simp: neq_Nil_conv)

declare py_replace.simps [simp del]

text \<open>The pieces of a string between occurrences of a separator character.\<close>

fun split_on :: "char \<Rightarrow> string \<Rightarrow> string list" where
  "split_on c [] = [[]]"
| "split_on c (x # xs) =
     (if x = c then [] # split_on c xs
      else (case split_on c xs of [] \<Rightarrow> [[x]] | y # ys \<Rightarrow> (x # y) # ys))"

text \<open>
  A lone surrogate is the byte \<^verbatim>\<open>ED\<close> followed by a byte from \<^verbatim>\<open>A0\<close> to \<^verbatim>\<open>BF\<close>; UTF-8
  proper never has that pair. A string with a lone surrogate cannot be encoded:
  \<^verbatim>\<open>s.encode()\<close> and writing to a text file raise \<^verbatim>\<open>UnicodeEncodeError\<close>.
\<close>

fun has_surrogate :: "string \<Rightarrow> bool" where
  "has_surrogate (a # b # s) =
     ((of_char a = (237::nat) \<and> (160::nat) \<le> of_char b \<and> of_char b \<le> (191::nat))
      \<or> has_surrogate (b # s))"
| "has_surrogate _ = False"

text \<open>
  The name of a file is encoded with \<^verbatim>\<open>surrogateescape\<close>, which accepts the surrogates from
  \<^verbatim>\<open>U+DC80\<close> to \<^verbatim>\<open>U+DCFF\<close> (second byte \<^verbatim>\<open>B2\<close> or \<^verbatim>\<open>B3\<close>) and no other.
\<close>

fun has_unescapable :: "string \<Rightarrow> bool" where
  "has_unescapable (a # b # s) =
     ((of_char a = (237::nat) \<and> (160::nat) \<le> of_char b \<and> of_char b \<le> (191::nat)
         \<and> of_char b \<noteq> (178::nat) \<and> of_char b \<noteq> (179::nat))
      \<or> has_unescapable (b # s))"
| "has_unescapable _ = False"

text \<open>\<^verbatim>\<open>str(n)\<close> of an integer, in decimal.\<close>

function show_nat :: "nat \<Rightarrow> string" where
  "show_nat n =
     (if n < 10 then [char_of (48 + n)] else show_nat (n div 10) @ [char_of (48 + n mod 10)])"
  by pat_completeness auto
termination
  by (relation "measure id") auto

declare show_nat.simps [simp del]

definition show_int :: "int \<Rightarrow> string" where
  "show_int i = (if i < 0 then CHR ''-'' # show_nat (nat (- i)) else show_nat (nat i))"


text \<open>
  A value inside an f-string, and a value printed by a template: the text of
  \<^verbatim>\<open>str(v)\<close>. For sequences, mappings and objects that text is the library's, the
  parameter \<open>str\<close>.
\<close>

definition format_value :: "(pyval \<Rightarrow> string) \<Rightarrow> pyval \<Rightarrow> string" where
  "format_value str v =
     (case v of
        VStr s \<Rightarrow> s
      | VInt n \<Rightarrow> show_int n
      | VBool b \<Rightarrow> (if b then ''True'' else ''False'')
      | VNone \<Rightarrow> ''None''
      | _ \<Rightarrow> str v)"

subsection \<open>Paths\<close>

text \<open>
  A \<^verbatim>\<open>pathlib.Path\<close> on POSIX: a root (\<^verbatim>\<open>''\<close>, \<^verbatim>\<open>'/'\<close> or \<^verbatim>\<open>'//'\<close>) and the components,
  from which empty components and \<^verbatim>\<open>'.'\<close> have been dropped. \<^verbatim>\<open>'..'\<close> is kept as it is.
\<close>

datatype path = Path (root: string) (parts: "string list")

definition root_of :: "string \<Rightarrow> string" where
  "root_of s =
     (if take 1 s \<noteq> ''/'' then ''''
      else if take 2 s = ''//'' \<and> take 3 s \<noteq> ''///'' then ''//''
      else ''/'')"

definition parts_of :: "string \<Rightarrow> string list" where
  "parts_of s = filter (\<lambda>p. p \<noteq> [] \<and> p \<noteq> ''.'') (split_on CHR ''/'' s)"

definition to_path :: "string \<Rightarrow> path" where
  "to_path s = Path (root_of s) (parts_of s)"

text \<open>\<^verbatim>\<open>p / s\<close>: a segment that starts with a slash replaces what is on its left.\<close>

definition join :: "path \<Rightarrow> string \<Rightarrow> path" where
  "join p s = (if root_of s \<noteq> [] then to_path s else Path (root p) (parts p @ parts_of s))"

text \<open>\<^verbatim>\<open>p.name\<close>, the last component, and \<^verbatim>\<open>p.parent\<close>.\<close>

definition name :: "path \<Rightarrow> string" where
  "name p = (if parts p = [] then [] else last (parts p))"

definition parent :: "path \<Rightarrow> path" where
  "parent p = Path (root p) (butlast (parts p))"

text \<open>The directories above a path, the nearest to the root first.\<close>

definition ancestors :: "path \<Rightarrow> path list" where
  "ancestors p = map (\<lambda>n. Path (root p) (take n (parts p))) [1 ..< length (parts p)]"

text \<open>
  What Python raises before it asks the operating system about a path: the name cannot
  be encoded (\<^verbatim>\<open>UnicodeEncodeError\<close>), or it has a null character (\<^verbatim>\<open>ValueError\<close>).
\<close>

definition path_error :: "path \<Rightarrow> failure option" where
  "path_error p =
     (if list_ex has_unescapable (parts p) then Some UnicodeEncodeError
      else if list_ex (\<lambda>s. CHR 0x00 \<in> set s) (parts p) then Some ValueError
      else None)"

subsection \<open>The file system\<close>

text \<open>
  The directories and the files that exist, keyed by path, and the history of the files
  written, the oldest first. A path without components (the root, the working directory)
  is a directory. Two paths name the same file only when they are equal as
  \<^verbatim>\<open>pathlib\<close> values: symbolic links and \<^verbatim>\<open>'..'\<close> are not resolved, a relative path is not
  identified with the absolute one, and an escaped surrogate is not identified with the
  byte it stands for. Text files are in UTF-8. Permissions, full disks and the limits on
  the length of a name are not modelled.
\<close>

record world =
  dirs :: "path list"
  files :: "(path \<times> string) list"
  writes :: "path list"

definition has_dir :: "world \<Rightarrow> path \<Rightarrow> bool" where
  "has_dir w p = (parts p = [] \<or> p \<in> set (dirs w))"

definition has_file :: "world \<Rightarrow> path \<Rightarrow> bool" where
  "has_file w p = (map_of (files w) p \<noteq> None)"

text \<open>What the kernel answers when it walks to the last component of a path: the first
  ancestor that is not a directory decides the error.\<close>

definition walk :: "world \<Rightarrow> path \<Rightarrow> failure option" where
  "walk w p =
     (case find (\<lambda>q. \<not> has_dir w q) (ancestors p) of
        None \<Rightarrow> None
      | Some q \<Rightarrow> Some (if has_file w q then NotADirectoryError else FileNotFoundError))"

text \<open>\<^verbatim>\<open>p.is_dir()\<close> and \<^verbatim>\<open>p.exists()\<close>: false also when the path cannot be reached or
  cannot be named.\<close>

definition is_dir :: "world \<Rightarrow> path \<Rightarrow> bool" where
  "is_dir w p = (path_error p = None \<and> walk w p = None \<and> has_dir w p)"

definition path_exists :: "world \<Rightarrow> path \<Rightarrow> bool" where
  "path_exists w p = (path_error p = None \<and> walk w p = None \<and> (has_dir w p \<or> has_file w p))"

text \<open>\<^verbatim>\<open>os.mkdir(p)\<close>.\<close>

definition os_mkdir :: "world \<Rightarrow> path \<Rightarrow> failure + world" where
  "os_mkdir w p =
     (case path_error p of
        Some e \<Rightarrow> Inl e
      | None \<Rightarrow>
          (case walk w p of
             Some e \<Rightarrow> Inl e
           | None \<Rightarrow>
               if has_dir w p \<or> has_file w p then Inl FileExistsError
               else Inr (w\<lparr>dirs := dirs w @ [p]\<rparr>)))"

text \<open>
  \<^verbatim>\<open>p.mkdir(parents=True, exist_ok=True)\<close> as \<^verbatim>\<open>pathlib\<close> does it: try \<^verbatim>\<open>os.mkdir\<close>; when
  a parent is missing, make the parent in the same way and try again; any other
  \<^verbatim>\<open>OSError\<close> is swallowed when the path is a directory already; an exception that is
  no \<^verbatim>\<open>OSError\<close> is not caught.
\<close>

function mkdir_parents :: "world \<Rightarrow> path \<Rightarrow> (failure + unit) \<times> world" where
  "mkdir_parents w p =
     (case os_mkdir w p of
        Inr w' \<Rightarrow> (Inr (), w')
      | Inl e \<Rightarrow>
          if e = FileNotFoundError then
            if parts p = [] then (Inl e, w)
            else
              (case mkdir_parents w (parent p) of
                 (Inl e', w') \<Rightarrow> (Inl e', w')
               | (Inr _, w') \<Rightarrow>
                   (case os_mkdir w' p of
                      Inr w'' \<Rightarrow> (Inr (), w'')
                    | Inl e'' \<Rightarrow>
                        if e'' \<noteq> FileNotFoundError \<and> is_OSError e'' \<and> is_dir w' p
                        then (Inr (), w')
                        else (Inl e'', w')))
          else if is_OSError e \<and> is_dir w p then (Inr (), w)
          else (Inl e, w))"
  by pat_completeness auto
termination
  by (relation "measure (\<lambda>(w, p). length (parts p))") (auto simp: parent_def)

declare mkdir_parents.simps [simp del]

text \<open>
  \<^verbatim>\<open>with open(p, 'w') as f: f.write(text)\<close>. Opening creates the file or empties it;
  a text that cannot be encoded is refused by \<^verbatim>\<open>write\<close>, after the file was opened, and
  leaves it empty. Only a write that succeeds enters the history.
\<close>

fun file_set :: "(path \<times> string) list \<Rightarrow> path \<Rightarrow> string \<Rightarrow> (path \<times> string) list" where
  "file_set [] p t = [(p, t)]"
| "file_set ((q, u) # fs) p t = (if q = p then (p, t) # fs else (q, u) # file_set fs p t)"

definition write_file :: "world \<Rightarrow> path \<Rightarrow> string \<Rightarrow> (failure + unit) \<times> world" where
  "write_file w p t =
     (case path_error p of
        Some e \<Rightarrow> (Inl e, w)
      | None \<Rightarrow>
          (case walk w p of
             Some e \<Rightarrow> (Inl e, w)
           | None \<Rightarrow>
               if has_dir w p then (Inl IsADirectoryError, w)
               else if has_surrogate t
                 then (Inl UnicodeEncodeError, w\<lparr>files := file_set (files w) p []\<rparr>)
               else (Inr (), w\<lparr>files := file_set (files w) p t, writes := writes w @ [p]\<rparr>)))"

text \<open>\<^verbatim>\<open>open(p, 'r')\<close> followed by reading the whole file.\<close>

definition read_file :: "world \<Rightarrow> path \<Rightarrow> failure + string" where
  "read_file w p =
     (case path_error p of
        Some e \<Rightarrow> Inl e
      | None \<Rightarrow>
          (case walk w p of
             Some e \<Rightarrow> Inl e
           | None \<Rightarrow>
               if has_dir w p then Inl IsADirectoryError
               else (case map_of (files w) p of None \<Rightarrow> Inl FileNotFoundError | Some t \<Rightarrow> Inr t)))"

subsection \<open>The encoding helper\<close>

text \<open>
  \<^verbatim>\<open>lambda s: base64.b64encode(s.encode()).decode()\<close>, at lines 25 and 75.
  \<^verbatim>\<open>base64.b64encode\<close> is the encoding of RFC 4648 with the standard alphabet: three
  bytes become four characters of six bits each, and a last group of one or two bytes is
  padded with \<^verbatim>\<open>=\<close>. \<^verbatim>\<open>s.encode()\<close> gives the UTF-8 bytes of a string, which are the
  string of the model, and raises \<^verbatim>\<open>UnicodeEncodeError\<close> when the string has a lone
  surrogate; \<^verbatim>\<open>.decode()\<close> of the ASCII result changes nothing. A value that is not a
  string has no \<^verbatim>\<open>encode\<close> method.
\<close>

definition enc6 :: "nat \<Rightarrow> char" where
  "enc6 n =
     (if n < 26 then char_of (n + 65)
      else if n < 52 then char_of (n + 71)
      else if n < 62 then char_of (n - 4)
      else if n = 62 then CHR ''+''
      else CHR ''/'')"

fun b64encode :: "string \<Rightarrow> string" where
  "b64encode [] = []"
| "b64encode [a] =
     (let x = of_char a :: nat
      in [enc6 (x div 4), enc6 (x mod 4 * 16), CHR ''='', CHR ''=''])"
| "b64encode [a, b] =
     (let x = of_char a :: nat; y = of_char b :: nat
      in [enc6 (x div 4), enc6 (x mod 4 * 16 + y div 16), enc6 (y mod 16 * 4), CHR ''=''])"
| "b64encode (a # b # c # rest) =
     (let x = of_char a :: nat; y = of_char b :: nat; z = of_char c :: nat
      in [enc6 (x div 4), enc6 (x mod 4 * 16 + y div 16),
          enc6 (y mod 16 * 4 + z div 64), enc6 (z mod 64)] @ b64encode rest)"

definition b64encode_lambda :: "pyval \<Rightarrow> failure + pyval" where
  "b64encode_lambda v =
     (case v of
        VStr s \<Rightarrow> (if has_surrogate s then Inl UnicodeEncodeError else Inr (VStr (b64encode s)))
      | _ \<Rightarrow> Inl AttributeError)"

text \<open>The decoder of RFC 4648, with which the round trip is stated; the script has
  none. It accepts exactly the canonical form: groups of four characters of the alphabet,
  the last one possibly padded.\<close>

definition dec6 :: "char \<Rightarrow> nat option" where
  "dec6 c =
     (let k = of_char c :: nat in
      if 65 \<le> k \<and> k \<le> 90 then Some (k - 65)
      else if 97 \<le> k \<and> k \<le> 122 then Some (k - 71)
      else if 48 \<le> k \<and> k \<le> 57 then Some (k + 4)
      else if k = 43 then Some 62
      else if k = 47 then Some 63
      else None)"

fun b64decode :: "string \<Rightarrow> string option" where
  "b64decode [] = Some []"
| "b64decode (p # q # r # s # rest) =
     (case (dec6 p, dec6 q) of
        (Some i, Some j) \<Rightarrow>
          if rest = [] \<and> s = CHR ''='' \<and> r = CHR ''='' then
            (if j mod 16 = 0 then Some [char_of (i * 4 + j div 16)] else None)
          else
            (case dec6 r of
               None \<Rightarrow> None
             | Some k \<Rightarrow>
                 if rest = [] \<and> s = CHR ''='' then
                   (if k mod 4 = 0
                    then Some [char_of (i * 4 + j div 16), char_of (j mod 16 * 16 + k div 4)]
                    else None)
                 else
                   (case (dec6 s, b64decode rest) of
                      (Some l, Some bs) \<Rightarrow>
                        Some (char_of (i * 4 + j div 16) # char_of (j mod 16 * 16 + k div 4)
                              # char_of (k mod 4 * 64 + l) # bs)
                    | _ \<Rightarrow> None))
      | _ \<Rightarrow> None)"
| "b64decode _ = None"

subsection \<open>The libraries\<close>

text \<open>
  The script calls things that are not its own code. They are parameters of the model,
  and every theorem holds for whatever they do:
  \<^item> \<open>py_str\<close>: \<^verbatim>\<open>str(v)\<close> of a sequence, a mapping or an object;
  \<^item> \<open>safe_load\<close>: \<^verbatim>\<open>yaml.safe_load\<close> on the content of a document;
  \<^item> \<open>yaml_dump\<close>: \<^verbatim>\<open>yaml.dump(v, default_flow_style=False)\<close>;
  \<^item> \<open>get_template\<close>: \<^verbatim>\<open>env.get_template(name)\<close>, which reads and compiles a template
    from \<^verbatim>\<open>kubernetes/templates\<close>; a compiled template is the function from a context
    to the rendered text that \<^verbatim>\<open>template.render(**context)\<close> runs;
  \<^item> \<open>call_object\<close>: the call of an object that is no data, such as a global of the
    Jinja2 environment, with one argument (\<open>None\<close> is the undefined value).
\<close>

record lib =
  py_str :: "pyval \<Rightarrow> string"
  safe_load :: "string \<Rightarrow> failure + pyval"
  yaml_dump :: "pyval \<Rightarrow> string"
  get_template :: "world \<Rightarrow> string \<Rightarrow> failure + (dict \<Rightarrow> failure + string)"
  call_object :: "string \<Rightarrow> pyval option \<Rightarrow> failure + pyval option"

subsection \<open>Templates: variables and the helper\<close>

text \<open>
  The part of the Jinja2 template language that the properties of the binder are about:
  literal text, and \<^verbatim>\<open>{{ e }}\<close> where \<open>e\<close> is a name, the filter \<^verbatim>\<open>e | b64encode\<close>
  registered at line 75, or a call \<^verbatim>\<open>f(e)\<close>.

  A name is looked up as Jinja2 does it. The words \<^verbatim>\<open>true\<close>, \<^verbatim>\<open>false\<close> and \<^verbatim>\<open>none\<close>, also
  capitalised, are constants, and \<^verbatim>\<open>self\<close> is the template itself. Any other name is a key
  of the context or, when the context lacks it, one of the globals of the environment:
  \<^verbatim>\<open>range\<close>, \<^verbatim>\<open>dict\<close>, \<^verbatim>\<open>lipsum\<close>, \<^verbatim>\<open>cycler\<close>, \<^verbatim>\<open>joiner\<close>, \<^verbatim>\<open>namespace\<close>. A name that is none
  of these is undefined.

  What an undefined name evaluates to is the \<^verbatim>\<open>undefined\<close> option of the \<^verbatim>\<open>Environment\<close>.
  With \<^verbatim>\<open>jinja2.Undefined\<close> the missing value prints as the empty string and raises
  \<^verbatim>\<open>UndefinedError\<close> only when something is done with it; with \<^verbatim>\<open>jinja2.StrictUndefined\<close>
  printing it raises too.
\<close>

datatype undefined_type = Undefined | StrictUndefined

datatype jexpr = Name string | Filter_b64encode jexpr | Call jexpr jexpr

datatype jnode = TemplateData string | Output jexpr

text \<open>The \<^verbatim>\<open>Environment(...)\<close> of lines 67 to 72 sets \<^verbatim>\<open>loader\<close>, \<^verbatim>\<open>autoescape\<close>,
  \<^verbatim>\<open>trim_blocks\<close> and \<^verbatim>\<open>lstrip_blocks\<close>. It does not set \<^verbatim>\<open>undefined\<close>, whose default is
  \<^verbatim>\<open>jinja2.Undefined\<close>. The template names of the script end in \<^verbatim>\<open>.j2\<close>, for which
  \<^verbatim>\<open>select_autoescape(['html', 'xml'])\<close> switches escaping off.\<close>

definition env_undefined :: undefined_type where
  "env_undefined = Undefined"

definition environment_globals :: "string list" where
  "environment_globals = [''range'', ''dict'', ''lipsum'', ''cycler'', ''joiner'', ''namespace'']"

definition literal_value :: "string \<Rightarrow> pyval option" where
  "literal_value n =
     (if n = ''true'' \<or> n = ''True'' then Some (VBool True)
      else if n = ''false'' \<or> n = ''False'' then Some (VBool False)
      else if n = ''none'' \<or> n = ''None'' then Some VNone
      else None)"

text \<open>The names that mean something without the context.\<close>

definition engine_names :: "string list" where
  "engine_names =
     [''true'', ''True'', ''false'', ''False'', ''none'', ''None'', ''self''] @ environment_globals"

text \<open>The value of a name; \<open>None\<close> is the undefined value.\<close>

definition lookup_name :: "dict \<Rightarrow> string \<Rightarrow> pyval option" where
  "lookup_name ctx n =
     (case literal_value n of
        Some v \<Rightarrow> Some v
      | None \<Rightarrow>
          if n = ''self'' then Some (VObject ''self'')
          else
            (case map_of ctx n of
               Some v \<Rightarrow> Some v
             | None \<Rightarrow> if n \<in> set environment_globals then Some (VObject n) else None))"

text \<open>
  The call of a value with one argument. The function stored by \<^verbatim>\<open>load_values\<close> is the
  encoding helper; calling it with the undefined value, and calling the undefined value,
  raise \<^verbatim>\<open>UndefinedError\<close>; data cannot be called.
\<close>

definition call_value ::
  "(string \<Rightarrow> pyval option \<Rightarrow> failure + pyval option) \<Rightarrow> pyval option \<Rightarrow> pyval option
     \<Rightarrow> failure + pyval option" where
  "call_value call callee arg =
     (case callee of
        None \<Rightarrow> Inl UndefinedError
      | Some VLambda \<Rightarrow>
          (case arg of
             None \<Rightarrow> Inl UndefinedError
           | Some v \<Rightarrow> map_sum id Some (b64encode_lambda v))
      | Some (VObject n) \<Rightarrow> call n arg
      | Some _ \<Rightarrow> Inl TypeError)"

fun eval_expr ::
  "(string \<Rightarrow> pyval option \<Rightarrow> failure + pyval option) \<Rightarrow> dict \<Rightarrow> jexpr
     \<Rightarrow> failure + pyval option" where
  "eval_expr call ctx (Name n) = Inr (lookup_name ctx n)"
| "eval_expr call ctx (Filter_b64encode e) =
     (case eval_expr call ctx e of
        Inl x \<Rightarrow> Inl x
      | Inr None \<Rightarrow> Inl UndefinedError
      | Inr (Some v) \<Rightarrow> map_sum id Some (b64encode_lambda v))"
| "eval_expr call ctx (Call f e) =
     (case eval_expr call ctx f of
        Inl x \<Rightarrow> Inl x
      | Inr callee \<Rightarrow>
          (case eval_expr call ctx e of
             Inl x \<Rightarrow> Inl x
           | Inr arg \<Rightarrow> call_value call callee arg))"

fun render_node ::
  "(pyval \<Rightarrow> string) \<Rightarrow> (string \<Rightarrow> pyval option \<Rightarrow> failure + pyval option) \<Rightarrow> undefined_type
     \<Rightarrow> dict \<Rightarrow> jnode \<Rightarrow> failure + string" where
  "render_node str call u ctx (TemplateData t) = Inr t"
| "render_node str call u ctx (Output e) =
     (case eval_expr call ctx e of
        Inl x \<Rightarrow> Inl x
      | Inr None \<Rightarrow> (if u = StrictUndefined then Inl UndefinedError else Inr [])
      | Inr (Some v) \<Rightarrow> Inr (format_value str v))"

fun render_nodes ::
  "(pyval \<Rightarrow> string) \<Rightarrow> (string \<Rightarrow> pyval option \<Rightarrow> failure + pyval option) \<Rightarrow> undefined_type
     \<Rightarrow> jnode list \<Rightarrow> dict \<Rightarrow> failure + string" where
  "render_nodes str call u [] ctx = Inr []"
| "render_nodes str call u (n # ns) ctx =
     (case render_node str call u ctx n of
        Inl x \<Rightarrow> Inl x
      | Inr t \<Rightarrow>
          (case render_nodes str call u ns ctx of
             Inl x \<Rightarrow> Inl x
           | Inr ts \<Rightarrow> Inr (t @ ts)))"

text \<open>\<^verbatim>\<open>template.render(**context)\<close>: the keyword \<^verbatim>\<open>self\<close> collides with the method's own
  first parameter, which is a \<^verbatim>\<open>TypeError\<close> of the call.\<close>

definition template_render ::
  "(pyval \<Rightarrow> string) \<Rightarrow> (string \<Rightarrow> pyval option \<Rightarrow> failure + pyval option) \<Rightarrow> undefined_type
     \<Rightarrow> jnode list \<Rightarrow> dict \<Rightarrow> failure + string" where
  "template_render str call u ns ctx =
     (if map_of ctx ''self'' \<noteq> None then Inl TypeError else render_nodes str call u ns ctx)"

subsection \<open>\<^verbatim>\<open>load_values\<close>\<close>

definition values_file :: "string \<Rightarrow> path" where
  "values_file environment = to_path (''kubernetes/values/'' @ environment @ ''.yaml'')"

text \<open>Lines 14 to 27. Storing under \<^verbatim>\<open>'b64encode'\<close> raises \<^verbatim>\<open>TypeError\<close> when the
  document is not a mapping.\<close>

definition load_values :: "('a lib_scheme) \<Rightarrow> string \<Rightarrow> world \<Rightarrow> failure + dict" where
  "load_values L environment w =
     (if \<not> path_exists w (values_file environment) then Inl (SystemExit 1)
      else
        (case read_file w (values_file environment) of
           Inl e \<Rightarrow> Inl e
         | Inr text \<Rightarrow>
             (case safe_load L text of
                Inl e \<Rightarrow> Inl e
              | Inr (VDict d) \<Rightarrow> Inr (dict_set d ''b64encode'' VLambda)
              | Inr _ \<Rightarrow> Inl TypeError)))"

subsection \<open>\<^verbatim>\<open>render_template\<close>\<close>

text \<open>Lines 35 to 37: the name of the output file.\<close>

definition output_name :: "(pyval \<Rightarrow> string) \<Rightarrow> string \<Rightarrow> dict \<Rightarrow> string" where
  "output_name str template_name context =
     (let output_name = py_replace ''.j2'' ''.yaml'' template_name
      in case map_of context ''service_name'' of
           None \<Rightarrow> output_name
         | Some service_name \<Rightarrow> format_value str service_name @ ''-'' @ output_name)"

text \<open>Lines 29 to 45. The template is rendered before the output file is opened, so a
  failed render leaves the file system as it was.\<close>

definition render_template ::
  "('a lib_scheme) \<Rightarrow> path \<Rightarrow> string \<Rightarrow> dict \<Rightarrow> world \<Rightarrow> (failure + path) \<times> world" where
  "render_template L output_dir template_name context w =
     (case get_template L w template_name of
        Inl e \<Rightarrow> (Inl e, w)
      | Inr template \<Rightarrow>
          (case template context of
             Inl e \<Rightarrow> (Inl e, w)
           | Inr rendered \<Rightarrow>
               (let output_path = join output_dir (output_name (py_str L) template_name context)
                in case write_file w output_path rendered of
                     (Inl e, w') \<Rightarrow> (Inl e, w')
                   | (Inr _, w') \<Rightarrow> (Inr output_path, w'))))"

subsection \<open>\<^verbatim>\<open>main\<close>\<close>

text \<open>One statement after another: an exception ends the run where it is raised, with
  the file system as it is at that moment.\<close>

definition then_do ::
  "(world \<Rightarrow> (failure + 'a) \<times> world) \<Rightarrow> ('a \<Rightarrow> world \<Rightarrow> (failure + 'b) \<times> world)
     \<Rightarrow> world \<Rightarrow> (failure + 'b) \<times> world" where
  "then_do m k w = (case m w of (Inl e, w') \<Rightarrow> (Inl e, w') | (Inr x, w') \<Rightarrow> k x w')"

definition pure :: "failure + 'a \<Rightarrow> world \<Rightarrow> (failure + 'a) \<times> world" where
  "pure r w = (r, w)"

text \<open>Lines 83 to 87: the context of the PostgreSQL template.\<close>

definition postgres_context :: "dict \<Rightarrow> failure + dict" where
  "postgres_context values =
     (case dict_item values ''namespace'' of
        Inl e \<Rightarrow> Inl e
      | Inr namespace \<Rightarrow>
          (case dict_item values ''environment'' of
             Inl e \<Rightarrow> Inl e
           | Inr environment \<Rightarrow>
               (case dict_item values ''postgres'' of
                  Inl e \<Rightarrow> Inl e
                | Inr postgres \<Rightarrow>
                    Inr [(''namespace'', namespace), (''environment'', environment),
                         (''postgres'', postgres)])))"

text \<open>Lines 92 and 98: \<^verbatim>\<open>{**values, **values[key]}\<close>. Unpacking a value that is not
  a mapping raises \<^verbatim>\<open>TypeError\<close>.\<close>

definition service_context :: "dict \<Rightarrow> string \<Rightarrow> failure + dict" where
  "service_context values key =
     (case dict_item values key of
        Inl e \<Rightarrow> Inl e
      | Inr (VDict service) \<Rightarrow> Inr (dict_merge values service)
      | Inr _ \<Rightarrow> Inl TypeError)"

text \<open>Line 103: \<^verbatim>\<open>values.get('ingress', {}).get('enabled', False)\<close>. A value under
  \<^verbatim>\<open>'ingress'\<close> that is not a mapping has no \<^verbatim>\<open>get\<close>.\<close>

definition ingress_enabled :: "dict \<Rightarrow> failure + bool" where
  "ingress_enabled values =
     (case map_of values ''ingress'' of
        None \<Rightarrow> Inr False
      | Some (VDict ingress) \<Rightarrow>
          (case map_of ingress ''enabled'' of None \<Rightarrow> Inr False | Some v \<Rightarrow> Inr (truthy v))
      | Some _ \<Rightarrow> Inl AttributeError)"

text \<open>Lines 105 to 111: the context of the Ingress template. \<^verbatim>\<open>values['ingress']\<close> is a
  mapping here; indexing anything else raises \<^verbatim>\<open>TypeError\<close>.\<close>

definition ingress_item :: "dict \<Rightarrow> string \<Rightarrow> failure + pyval" where
  "ingress_item values k =
     (case dict_item values ''ingress'' of
        Inl e \<Rightarrow> Inl e
      | Inr (VDict ingress) \<Rightarrow> dict_item ingress k
      | Inr _ \<Rightarrow> Inl TypeError)"

definition ingress_context :: "dict \<Rightarrow> failure + dict" where
  "ingress_context values =
     (case dict_item values ''namespace'' of
        Inl e \<Rightarrow> Inl e
      | Inr namespace \<Rightarrow>
          (case dict_item values ''environment'' of
             Inl e \<Rightarrow> Inl e
           | Inr environment \<Rightarrow>
               (case ingress_item values ''name'' of
                  Inl e \<Rightarrow> Inl e
                | Inr ingress_name \<Rightarrow>
                    (case ingress_item values ''host'' of
                       Inl e \<Rightarrow> Inl e
                     | Inr ingress_host \<Rightarrow>
                         (case ingress_item values ''services'' of
                            Inl e \<Rightarrow> Inl e
                          | Inr services \<Rightarrow>
                              Inr [(''namespace'', namespace), (''environment'', environment),
                                   (''ingress_name'', ingress_name),
                                   (''ingress_host'', ingress_host),
                                   (''services'', services)])))))"

text \<open>Lines 102 to 112: the Ingress is rendered when the flag is true. The result is
  what the step appends to \<^verbatim>\<open>rendered_files\<close>.\<close>

definition render_ingress ::
  "('a lib_scheme) \<Rightarrow> path \<Rightarrow> dict \<Rightarrow> world \<Rightarrow> (failure + path list) \<times> world" where
  "render_ingress L output_dir values =
     then_do (pure (ingress_enabled values)) (\<lambda>enabled.
       if enabled then
         then_do (pure (ingress_context values)) (\<lambda>context.
         then_do (render_template L output_dir ''ingress.j2'' context) (\<lambda>f.
         pure (Inr [f])))
       else pure (Inr []))"

text \<open>Lines 79 to 112: the units in the order of the script; the result is
  \<^verbatim>\<open>rendered_files\<close>.\<close>

definition render_all ::
  "('a lib_scheme) \<Rightarrow> path \<Rightarrow> dict \<Rightarrow> world \<Rightarrow> (failure + path list) \<times> world" where
  "render_all L output_dir values =
     then_do (pure (postgres_context values)) (\<lambda>context.
     then_do (render_template L output_dir ''postgres-statefulset.j2'' context) (\<lambda>f1.
     then_do (pure (service_context values ''python_service'')) (\<lambda>context.
     then_do (render_template L output_dir ''deployment.j2'' context) (\<lambda>f2.
     then_do (render_template L output_dir ''service.j2'' context) (\<lambda>f3.
     then_do (pure (service_context values ''nodejs_service'')) (\<lambda>context.
     then_do (render_template L output_dir ''deployment.j2'' context) (\<lambda>f4.
     then_do (render_template L output_dir ''service.j2'' context) (\<lambda>f5.
     then_do (render_ingress L output_dir values) (\<lambda>fs.
     pure (Inr ([f1, f2, f3, f4, f5] @ fs)))))))))))"

text \<open>Lines 117 to 125: the aggregator document and its file.\<close>

definition kustomization :: "path list \<Rightarrow> pyval" where
  "kustomization rendered_files =
     VDict [(''apiVersion'', VStr ''kustomize.config.k8s.io/v1beta1''),
            (''kind'', VStr ''Kustomization''),
            (''resources'', VList (map (\<lambda>f. VStr (name f)) rendered_files))]"

definition write_kustomization ::
  "('a lib_scheme) \<Rightarrow> path \<Rightarrow> path list \<Rightarrow> world \<Rightarrow> (failure + unit) \<times> world" where
  "write_kustomization L output_dir rendered_files w =
     write_file w (join output_dir ''kustomization.yaml'')
       (yaml_dump L (kustomization rendered_files))"

text \<open>Lines 47 to 127. \<^verbatim>\<open>argparse\<close> exits with status 2 when the environment is not one
  of the three choices. The output directory is made at line 59, before the values are
  loaded at line 63.\<close>

definition main :: "('a lib_scheme) \<Rightarrow> string \<Rightarrow> string \<Rightarrow> world \<Rightarrow> (failure + unit) \<times> world" where
  "main L environment output_dir_arg =
     (if environment \<notin> set [''dev'', ''staging'', ''prod''] then pure (Inl (SystemExit 2))
      else
        (let output_dir = join (to_path output_dir_arg) environment
         in then_do (\<lambda>w. mkdir_parents w output_dir) (\<lambda>_.
            then_do (\<lambda>w. (load_values L environment w, w)) (\<lambda>values.
            then_do (render_all L output_dir values) (\<lambda>rendered_files.
            write_kustomization L output_dir rendered_files)))))"

subsection \<open>The units of a run\<close>

text \<open>
  The same run seen as a list of units, with which the properties of whole runs are
  stated: the template of each unit and its context (or the exception that building the
  context raises), in the order of lines 79 to 112. The context of a unit is built when
  the units before it have been written.
\<close>

definition units :: "dict \<Rightarrow> (string \<times> (failure + dict)) list" where
  "units values =
     [(''postgres-statefulset.j2'', postgres_context values),
      (''deployment.j2'', service_context values ''python_service''),
      (''service.j2'', service_context values ''python_service''),
      (''deployment.j2'', service_context values ''nodejs_service''),
      (''service.j2'', service_context values ''nodejs_service'')]
     @ (case ingress_enabled values of
          Inl e \<Rightarrow> [(''ingress.j2'', Inl e)]
        | Inr enabled \<Rightarrow> if enabled then [(''ingress.j2'', ingress_context values)] else [])"

fun run_units ::
  "('a lib_scheme) \<Rightarrow> path \<Rightarrow> (string \<times> (failure + dict)) list \<Rightarrow> world
     \<Rightarrow> (failure + path list) \<times> world" where
  "run_units L output_dir [] = pure (Inr [])"
| "run_units L output_dir ((template_name, context) # us) =
     then_do (pure context) (\<lambda>c.
     then_do (render_template L output_dir template_name c) (\<lambda>f.
     then_do (run_units L output_dir us) (\<lambda>fs.
     pure (Inr (f # fs)))))"

text \<open>The output names that the units derive.\<close>

definition derived_names :: "('a lib_scheme) \<Rightarrow> dict \<Rightarrow> string list" where
  "derived_names L values =
     concat (map (\<lambda>(t, context).
        case context of Inl e \<Rightarrow> [] | Inr c \<Rightarrow> [output_name (py_str L) t c]) (units values))"

text \<open>The file system after files have been written one after the other.\<close>

fun apply_writes :: "(path \<times> string) list \<Rightarrow> world \<Rightarrow> world" where
  "apply_writes [] w = w"
| "apply_writes ((p, t) # ps) w =
     apply_writes ps (w\<lparr>files := file_set (files w) p t, writes := writes w @ [p]\<rparr>)"

text \<open>
  \<open>produced L output_dir us w ps\<close>: the files \<open>ps\<close> are the artifacts of the units \<open>us\<close>
  rendered from the file system \<open>w\<close> on. Each has the path that its unit derives and
  the text that the template of its unit renders from its context, in the file system
  that holds the artifacts before it.
\<close>

fun produced ::
  "('a lib_scheme) \<Rightarrow> path \<Rightarrow> (string \<times> (failure + dict)) list \<Rightarrow> world
     \<Rightarrow> (path \<times> string) list \<Rightarrow> bool" where
  "produced L output_dir [] w ps = (ps = [])"
| "produced L output_dir ((t, context) # us) w [] = False"
| "produced L output_dir ((t, context) # us) w ((p, x) # ps) =
     (case context of
        Inl e \<Rightarrow> False
      | Inr c \<Rightarrow>
          p = join output_dir (output_name (py_str L) t c)
          \<and> (case get_template L w t of Inl e \<Rightarrow> False | Inr template \<Rightarrow> template c = Inr x)
          \<and> produced L output_dir us (apply_writes [(p, x)] w) ps)"

subsection \<open>A sample repository\<close>

text \<open>Value documents, four templates and file systems, on which the theorems below are
  exercised.\<close>

definition sample_items :: dict where
  "sample_items =
     [(''namespace'', VStr ''shop''),
      (''environment'', VStr ''dev''),
      (''image'', VStr ''base:1''),
      (''token'', VStr ''admin123''),
      (''postgres'', VDict [(''password'', VStr ''admin123'')]),
      (''python_service'', VDict [(''service_name'', VStr ''api''), (''image'', VStr ''api:2'')]),
      (''nodejs_service'', VDict [(''service_name'', VStr ''worker'')]),
      (''ingress'', VDict [(''enabled'', VBool True), (''name'', VStr ''gw''),
                           (''host'', VStr ''shop.test''), (''services'', VList [])])]"

definition sample_complete :: pyval where
  "sample_complete = VDict sample_items"

definition sample_values :: dict where
  "sample_values = dict_set sample_items ''b64encode'' VLambda"

definition sample_clash :: pyval where
  "sample_clash = VDict
     [(''namespace'', VStr ''shop''),
      (''environment'', VStr ''staging''),
      (''image'', VStr ''base:1''),
      (''token'', VStr ''admin123''),
      (''postgres'', VDict [(''password'', VStr ''admin123'')]),
      (''python_service'', VDict [(''service_name'', VStr ''api''), (''image'', VStr ''api:2'')]),
      (''nodejs_service'', VDict [(''service_name'', VStr ''api''), (''image'', VStr ''node:3'')]),
      (''ingress'', VDict [(''enabled'', VBool False)])]"

definition sample_incomplete :: pyval where
  "sample_incomplete = VDict
     [(''namespace'', VStr ''shop''),
      (''environment'', VStr ''dev''),
      (''token'', VStr ''admin123''),
      (''postgres'', VDict [(''password'', VStr ''admin123'')]),
      (''python_service'', VDict [(''service_name'', VStr ''api''), (''image'', VStr ''api:2'')]),
      (''nodejs_service'', VDict [(''service_name'', VStr ''worker'')])]"

definition sample_no_token_items :: dict where
  "sample_no_token_items =
     [(''namespace'', VStr ''shop''),
      (''environment'', VStr ''staging''),
      (''image'', VStr ''base:1''),
      (''postgres'', VDict [(''password'', VStr ''admin123'')]),
      (''python_service'', VDict [(''service_name'', VStr ''api'')]),
      (''nodejs_service'', VDict [(''service_name'', VStr ''worker'')])]"

definition sample_no_token_values :: dict where
  "sample_no_token_values = dict_set sample_no_token_items ''b64encode'' VLambda"

definition sample_nested_items :: dict where
  "sample_nested_items =
     [(''namespace'', VStr ''shop''),
      (''environment'', VStr ''dev''),
      (''image'', VStr ''base:1''),
      (''token'', VStr ''admin123''),
      (''postgres'', VDict [(''password'', VStr ''admin123'')]),
      (''python_service'', VDict [(''service_name'', VStr ''team/api'')]),
      (''nodejs_service'', VDict [(''service_name'', VStr ''worker'')])]"


definition sample_str :: "pyval \<Rightarrow> string" where
  "sample_str v = ''<object>''"

definition sample_call :: "string \<Rightarrow> pyval option \<Rightarrow> failure + pyval option" where
  "sample_call n arg = Inl TypeError"

definition sample_templates :: "string \<Rightarrow> jnode list option" where
  "sample_templates n =
     (if n = ''postgres-statefulset.j2'' then
        Some [TemplateData ''namespace: '', Output (Name ''namespace'')]
      else if n = ''deployment.j2'' then
        Some [TemplateData ''name: '', Output (Name ''service_name''),
              TemplateData '' image: '', Output (Name ''image'')]
      else if n = ''service.j2'' then
        Some [TemplateData ''service: '', Output (Name ''service_name''),
              TemplateData '' token: '', Output (Call (Name ''b64encode'') (Name ''token''))]
      else if n = ''ingress.j2'' then
        Some [TemplateData ''host: '', Output (Name ''ingress_host'')]
      else None)"

definition sample_get_template :: "world \<Rightarrow> string \<Rightarrow> failure + (dict \<Rightarrow> failure + string)" where
  "sample_get_template w n =
     (case sample_templates n of
        None \<Rightarrow> Inl (TemplateNotFound n)
      | Some ns \<Rightarrow> Inr (template_render sample_str sample_call env_undefined ns))"

definition sample_load :: "string \<Rightarrow> failure + pyval" where
  "sample_load t =
     (if t = ''complete'' then Inr sample_complete
      else if t = ''clash'' then Inr sample_clash
      else if t = ''incomplete'' then Inr sample_incomplete
      else if t = ''no token'' then Inr (VDict sample_no_token_items)
      else if t = ''nested'' then Inr (VDict sample_nested_items)
      else Inl YAMLError)"

definition sample_dump :: "pyval \<Rightarrow> string" where
  "sample_dump v =
     (case v of
        VDict d \<Rightarrow>
          (case map_of d ''resources'' of
             Some (VList xs) \<Rightarrow> concat (map (\<lambda>x. ''- '' @ format_value sample_str x @ ''; '') xs)
           | _ \<Rightarrow> [])
      | _ \<Rightarrow> [])"

definition sample_lib :: lib where
  "sample_lib = \<lparr>py_str = sample_str, safe_load = sample_load, yaml_dump = sample_dump,
                  get_template = sample_get_template, call_object = sample_call\<rparr>"

definition sample_world :: world where
  "sample_world =
     \<lparr>dirs = [Path [] [''kubernetes''], Path [] [''kubernetes'', ''values'']],
      files = [(Path [] [''kubernetes'', ''values'', ''dev.yaml''], ''complete''),
               (Path [] [''kubernetes'', ''values'', ''staging.yaml''], ''clash'')],
      writes = []\<rparr>"

definition sample_world2 :: world where
  "sample_world2 =
     \<lparr>dirs = [Path [] [''kubernetes''], Path [] [''kubernetes'', ''values'']],
      files = [(Path [] [''kubernetes'', ''values'', ''dev.yaml''], ''incomplete''),
               (Path [] [''kubernetes'', ''values'', ''staging.yaml''], ''no token'')],
      writes = []\<rparr>"


section \<open>Properties\<close>

subsection \<open>Dictionaries and contexts\<close>

lemma map_of_dict_set: "map_of (dict_set d k v) = (map_of d)(k \<mapsto> v)"
  by (induction d k v rule: dict_set.induct) (auto simp: fun_eq_iff)

lemma map_of_fold_dict_set:
  "map_of (fold (\<lambda>(k, v) d. dict_set d k v) b a) = map_of a ++ map_of (rev b)"
proof (induction b arbitrary: a)
  case Nil
  then show ?case by simp
next
  case (Cons x b)
  obtain k v where x: "x = (k, v)" by (cases x)
  have "map_of (fold (\<lambda>(k, v) d. dict_set d k v) (x # b) a)
        = map_of (dict_set a k v) ++ map_of (rev b)"
    using Cons.IH [of "dict_set a k v"] by (simp add: x)
  also have "\<dots> = map_of a ++ map_of (rev (x # b))"
    by (simp add: x map_of_dict_set fun_eq_iff map_add_def split: option.splits)
  finally show ?case .
qed

lemma map_of_rev_distinct: "distinct (map fst b) \<Longrightarrow> map_of (rev b) = map_of b"
  by (rule map_of_inject_set [THEN iffD2]) (simp_all add: rev_map [symmetric])

lemma map_of_dict_merge:
  "distinct (map fst b) \<Longrightarrow> map_of (dict_merge a b) = map_of a ++ map_of b"
  by (simp add: dict_merge_def map_of_fold_dict_set map_of_rev_distinct)

lemma map_of_rev_None: "map_of (rev b) k = None \<longleftrightarrow> map_of b k = None"
  by (simp add: map_of_eq_None_iff)

lemma dict_merge_lookup_left:
  "map_of b k = None \<Longrightarrow> map_of (dict_merge a b) k = map_of a k"
  using map_of_rev_None [of b k]
  by (simp add: dict_merge_def map_of_fold_dict_set map_add_def)

lemma dict_merge_lookup_right:
  "map_of b k \<noteq> None \<Longrightarrow> map_of (dict_merge a b) k \<noteq> None"
  using map_of_rev_None [of b k]
  by (auto simp: dict_merge_def map_of_fold_dict_set map_add_def split: option.splits)

lemma dict_item_Inr: "dict_item d k = Inr v \<longleftrightarrow> map_of d k = Some v"
  by (simp add: dict_item_def split: option.splits)

lemma postgres_context_Inr:
  "postgres_context values = Inr context \<longleftrightarrow>
     (\<exists>n e p. map_of values ''namespace'' = Some n \<and> map_of values ''environment'' = Some e
        \<and> map_of values ''postgres'' = Some p
        \<and> context = [(''namespace'', n), (''environment'', e), (''postgres'', p)])"
  by (auto simp: postgres_context_def dict_item_def split: option.splits)

lemma ingress_context_Inr:
  "ingress_context values = Inr context \<Longrightarrow>
     \<exists>n e a b c. context = [(''namespace'', n), (''environment'', e), (''ingress_name'', a),
        (''ingress_host'', b), (''services'', c)]
      \<and> map_of values ''namespace'' = Some n \<and> map_of values ''environment'' = Some e"
  by (auto simp: ingress_context_def dict_item_Inr split: sum.splits)

lemma service_context_Inr:
  "service_context values key = Inr context \<longleftrightarrow>
     (\<exists>service. map_of values key = Some (VDict service) \<and> context = dict_merge values service)"
  by (auto simp: service_context_def dict_item_def split: option.splits pyval.splits)

text \<open>
  \<^bold>\<open>C6.\<close> Whenever the context of the shared-resource unit (the PostgreSQL template) can
  be built, it has exactly the three keys \<^verbatim>\<open>namespace\<close>, \<^verbatim>\<open>environment\<close> and \<^verbatim>\<open>postgres\<close>,
  each with the value it has in the value tree, and no other key of the value tree.
\<close>

theorem postgres_context_three_keys:
  assumes "postgres_context values = Inr context"
  shows "map fst context = [''namespace'', ''environment'', ''postgres'']
     \<and> map_of context ''namespace'' = map_of values ''namespace''
     \<and> map_of context ''environment'' = map_of values ''environment''
     \<and> map_of context ''postgres'' = map_of values ''postgres''
     \<and> (\<forall>k. k \<notin> {''namespace'', ''environment'', ''postgres''} \<longrightarrow> map_of context k = None)"
  using assms by (auto simp: postgres_context_Inr)

theorem postgres_context_three_keys_witness:
  "postgres_context sample_values =
     Inr [(''namespace'', VStr ''shop''), (''environment'', VStr ''dev''),
          (''postgres'', VDict [(''password'', VStr ''admin123'')])]
   \<and> map_of sample_values ''image'' = Some (VStr ''base:1'')
   \<and> map_of [(''namespace'', VStr ''shop''), (''environment'', VStr ''dev''),
          (''postgres'', VDict [(''password'', VStr ''admin123'')])] ''image'' = None"
proof -
  have h: "postgres_context sample_values =
     Inr [(''namespace'', VStr ''shop''), (''environment'', VStr ''dev''),
          (''postgres'', VDict [(''password'', VStr ''admin123'')])]"
    by code_simp
  have "map_of sample_values ''image'' = Some (VStr ''base:1'')"
    by code_simp
  then show ?thesis
    using h postgres_context_three_keys [OF h] by simp
qed

text \<open>
  \<^bold>\<open>C7.\<close> The context of a service unit is the value tree merged with the sub-mapping of
  the service: a key of the sub-mapping has the value of the sub-mapping, every other key
  the value of the value tree. The sub-mapping is any mapping with distinct keys, as every
  Python dictionary is.
\<close>

theorem service_context_merge:
  assumes "map_of values key = Some (VDict service)" and "distinct (map fst service)"
  shows "\<exists>context. service_context values key = Inr context
     \<and> map_of context = map_of values ++ map_of service
     \<and> (\<forall>k v. map_of service k = Some v \<longrightarrow> map_of context k = Some v)
     \<and> (\<forall>k. map_of service k = None \<longrightarrow> map_of context k = map_of values k)"
proof -
  have "service_context values key = Inr (dict_merge values service)"
    using assms(1) by (simp add: service_context_Inr)
  moreover have "map_of (dict_merge values service) = map_of values ++ map_of service"
    using assms(2) by (rule map_of_dict_merge)
  ultimately show ?thesis
    by (auto simp: map_add_def)
qed

theorem service_context_merge_witness:
  "\<exists>context. service_context sample_values ''python_service'' = Inr context
     \<and> map_of context ''image'' = Some (VStr ''api:2'')
     \<and> map_of context ''namespace'' = Some (VStr ''shop'')
     \<and> map_of sample_values ''image'' = Some (VStr ''base:1'')"
proof -
  have h: "map_of sample_values ''python_service'' =
      Some (VDict [(''service_name'', VStr ''api''), (''image'', VStr ''api:2'')])"
    by code_simp
  have d: "distinct (map fst [(''service_name'', VStr ''api''), (''image'', VStr ''api:2'')])"
    by simp
  have "map_of sample_values ''image'' = Some (VStr ''base:1'')"
      "map_of sample_values ''namespace'' = Some (VStr ''shop'')"
    by code_simp+
  then show ?thesis
    using service_context_merge [OF h d] by auto
qed

lemma py_replace_j2_stem:
  "CHR ''.'' \<notin> set stem \<Longrightarrow> py_replace ''.j2'' ''.yaml'' (stem @ ''.j2'') = stem @ ''.yaml''"
proof (induction stem)
  case Nil
  show ?case by (simp add: py_replace.simps)
next
  case (Cons c stem)
  then have "c \<noteq> CHR ''.''" by auto
  then have "py_replace ''.j2'' ''.yaml'' ((c # stem) @ ''.j2'')
             = c # py_replace ''.j2'' ''.yaml'' (stem @ ''.j2'')"
    by (subst py_replace.simps) simp
  with Cons show ?case by simp
qed









lemma load_values_Inr:
  "load_values L environment w = Inr values \<Longrightarrow>
     \<exists>text doc. read_file w (values_file environment) = Inr text
       \<and> safe_load L text = Inr (VDict doc) \<and> values = dict_set doc ''b64encode'' VLambda"
  by (auto simp: load_values_def split: if_splits sum.splits pyval.splits)

lemma lookup_name_context:
  "k \<notin> set engine_names \<Longrightarrow> lookup_name c k = map_of c k"
  by (auto simp: lookup_name_def engine_names_def environment_globals_def literal_value_def
      split: option.splits)

lemma lookup_name_b64encode: "lookup_name c ''b64encode'' = map_of c ''b64encode''"
  by (rule lookup_name_context) (simp add: engine_names_def environment_globals_def)

text \<open>
  \<^bold>\<open>C10.\<close> The value tree that \<^verbatim>\<open>load_values\<close> returns is the parsed document with the
  key \<^verbatim>\<open>b64encode\<close> set to the encoding function: calling the value under that key with
  a string gives the base64 text of the string. Hence the context of every service unit
  has the key \<^verbatim>\<open>b64encode\<close>; unless the sub-mapping of the service has a key of that name
  it is bound to that function, and a template that calls it on a string of the context
  gets the base64 text. The contexts of the shared resource and of the routing unit never
  have the key, and a template that calls it there fails with \<^verbatim>\<open>UndefinedError\<close>.
\<close>

theorem load_values_adds_b64encode:
  assumes "load_values L environment w = Inr values"
  shows "(\<exists>text doc. read_file w (values_file environment) = Inr text
            \<and> safe_load L text = Inr (VDict doc)
            \<and> map_of values = (map_of doc)(''b64encode'' \<mapsto> VLambda))
     \<and> (\<forall>call s. \<not> has_surrogate s \<longrightarrow>
            call_value call (map_of values ''b64encode'') (Some (VStr s))
              = Inr (Some (VStr (b64encode s))))
     \<and> (\<forall>key context. service_context values key = Inr context \<longrightarrow>
            map_of context ''b64encode'' \<noteq> None
            \<and> (\<forall>service. map_of values key = Some (VDict service)
                  \<and> map_of service ''b64encode'' = None \<longrightarrow>
                  map_of context ''b64encode'' = Some VLambda
                  \<and> (\<forall>call k s. map_of context k = Some (VStr s) \<and> \<not> has_surrogate s
                        \<and> k \<notin> set engine_names \<longrightarrow>
                        eval_expr call context (Call (Name ''b64encode'') (Name k))
                          = Inr (Some (VStr (b64encode s))))))
     \<and> (\<forall>context call k. postgres_context values = Inr context
            \<or> ingress_context values = Inr context \<longrightarrow>
            map_of context ''b64encode'' = None
            \<and> eval_expr call context (Call (Name ''b64encode'') (Name k)) = Inl UndefinedError)"
proof -
  obtain t doc where l: "read_file w (values_file environment) = Inr t"
      "safe_load L t = Inr (VDict doc)" "values = dict_set doc ''b64encode'' VLambda"
    using load_values_Inr [OF assms] by blast
  then have v: "map_of values ''b64encode'' = Some VLambda"
    by (simp add: map_of_dict_set)
  have cv: "call_value call (Some VLambda) (Some (VStr s)) = Inr (Some (VStr (b64encode s)))"
    if "\<not> has_surrogate s" for call s
    using that by (simp add: call_value_def b64encode_lambda_def)
  have ev: "eval_expr call ctx (Call (Name ''b64encode'') (Name k))
              = Inr (Some (VStr (b64encode s)))"
    if "map_of ctx ''b64encode'' = Some VLambda" "map_of ctx k = Some (VStr s)"
      "\<not> has_surrogate s" "k \<notin> set engine_names" for call ctx k s
    using that cv [of s call]
    by (simp add: lookup_name_b64encode lookup_name_context)
  have s: "map_of ctx ''b64encode'' \<noteq> None
            \<and> (\<forall>service. map_of values key = Some (VDict service)
                  \<and> map_of service ''b64encode'' = None \<longrightarrow>
                  map_of ctx ''b64encode'' = Some VLambda
                  \<and> (\<forall>call k s. map_of ctx k = Some (VStr s) \<and> \<not> has_surrogate s
                        \<and> k \<notin> set engine_names \<longrightarrow>
                        eval_expr call ctx (Call (Name ''b64encode'') (Name k))
                          = Inr (Some (VStr (b64encode s)))))"
    if h: "service_context values key = Inr ctx" for key ctx
  proof -
    obtain service where c: "map_of values key = Some (VDict service)"
        "ctx = dict_merge values service"
      using h by (auto simp: service_context_Inr)
    show ?thesis
    proof (cases "map_of service ''b64encode''")
      case None
      then have "map_of ctx ''b64encode'' = Some VLambda"
        using c v by (simp add: dict_merge_lookup_left)
      with ev show ?thesis by simp
    next
      case (Some a)
      then show ?thesis using c by (simp add: dict_merge_lookup_right)
    qed
  qed
  have u: "eval_expr call ctx (Call (Name ''b64encode'') (Name k)) = Inl UndefinedError"
    if "map_of ctx ''b64encode'' = None" for call ctx k
    using that by (simp add: lookup_name_b64encode call_value_def)
  have p: "map_of ctx ''b64encode'' = None" if "postgres_context values = Inr ctx" for ctx
    using that by (auto simp: postgres_context_Inr)
  have i: "map_of ctx ''b64encode'' = None" if "ingress_context values = Inr ctx" for ctx
    using that by (auto dest!: ingress_context_Inr)
  have pi: "map_of ctx ''b64encode'' = None
            \<and> eval_expr call ctx (Call (Name ''b64encode'') (Name k)) = Inl UndefinedError"
    if "postgres_context values = Inr ctx \<or> ingress_context values = Inr ctx" for ctx call k
    using that p i u by blast
  have m: "map_of values = (map_of doc)(''b64encode'' \<mapsto> VLambda)"
    using l by (simp add: map_of_dict_set)
  from l(1,2) m have e: "\<exists>text doc. read_file w (values_file environment) = Inr text
            \<and> safe_load L text = Inr (VDict doc)
            \<and> map_of values = (map_of doc)(''b64encode'' \<mapsto> VLambda)"
    by blast
  from cv v have c2: "\<forall>call s. \<not> has_surrogate s \<longrightarrow>
            call_value call (map_of values ''b64encode'') (Some (VStr s))
              = Inr (Some (VStr (b64encode s)))"
    by simp
  from e c2 s pi show ?thesis
    by blast
qed

theorem load_values_adds_b64encode_witness:
  "load_values sample_lib ''dev'' sample_world = Inr sample_values
   \<and> map_of sample_values ''b64encode'' = Some VLambda
   \<and> map_of sample_items ''b64encode'' = None
   \<and> call_value sample_call (map_of sample_values ''b64encode'') (Some (VStr ''admin123''))
       = Inr (Some (VStr ''YWRtaW4xMjM=''))
   \<and> (\<exists>context. service_context sample_values ''nodejs_service'' = Inr context
          \<and> map_of context ''b64encode'' = Some VLambda)"
proof -
  have h: "load_values sample_lib ''dev'' sample_world = Inr sample_values"
    by code_simp
  have s: "service_context sample_values ''nodejs_service''
      = Inr (dict_merge sample_values [(''service_name'', VStr ''worker'')])"
    by code_simp
  have v: "map_of sample_values ''nodejs_service'' = Some (VDict [(''service_name'', VStr ''worker'')])"
    by code_simp
  have n: "map_of sample_items ''b64encode'' = None"
    by code_simp
  have a: "\<not> has_surrogate ''admin123''" and b: "b64encode ''admin123'' = ''YWRtaW4xMjM=''"
    by code_simp+
  note t = load_values_adds_b64encode [OF h]
  from t a b have c: "call_value sample_call (map_of sample_values ''b64encode'')
      (Some (VStr ''admin123'')) = Inr (Some (VStr ''YWRtaW4xMjM=''))"
    by metis
  from t s v have "map_of (dict_merge sample_values [(''service_name'', VStr ''worker'')])
      ''b64encode'' = Some VLambda"
    by simp
  with s have "\<exists>context. service_context sample_values ''nodejs_service'' = Inr context
          \<and> map_of context ''b64encode'' = Some VLambda"
    by blast
  moreover have "map_of sample_values ''b64encode'' = Some VLambda"
    by code_simp
  ultimately show ?thesis
    using h n c by blast
qed

subsection \<open>The encoding helper\<close>

lemma dec6_enc6: "n < 64 \<Longrightarrow> dec6 (enc6 n) = Some n"
  by (simp add: dec6_def enc6_def Let_def) arith

lemma dec6_pad: "dec6 CHR ''='' = None"
  by (simp add: dec6_def)

lemma enc6_not_pad: "n < 64 \<Longrightarrow> enc6 n \<noteq> CHR ''=''"
  using dec6_enc6 [of n] dec6_pad by auto

lemma sextets:
  fixes x y z :: nat
  assumes "x < 256" "y < 256" "z < 256"
  shows "x div 4 < 64" "x mod 4 * 16 < 64" "x mod 4 * 16 + y div 16 < 64"
    "y mod 16 * 4 < 64" "y mod 16 * 4 + z div 64 < 64" "z mod 64 < 64"
  using assms by auto

lemma regroup1:
  fixes x y :: nat
  assumes "y < 256"
  shows "x div 4 * 4 + (x mod 4 * 16 + y div 16) div 16 = x"
    and "(x mod 4 * 16 + y div 16) mod 16 = y div 16"
proof -
  have "y div 16 < 16" using assms by simp
  then show "(x mod 4 * 16 + y div 16) mod 16 = y div 16" by simp
  from \<open>y div 16 < 16\<close> have "(x mod 4 * 16 + y div 16) div 16 = x mod 4" by simp
  then show "x div 4 * 4 + (x mod 4 * 16 + y div 16) div 16 = x" by simp
qed

lemma regroup3:
  fixes y :: nat
  assumes "y < 256"
  shows "y div 16 div 16 = 0" "y div 16 mod 16 = y div 16"
proof -
  have "y div 16 < 16" using assms by simp
  then show "y div 16 div 16 = 0" "y div 16 mod 16 = y div 16" by simp_all
qed

lemma regroup4:
  fixes z :: nat
  assumes "z < 256"
  shows "z div 64 div 4 = 0" "z div 64 mod 4 = z div 64"
proof -
  have "z div 64 < 4" using assms by simp
  then show "z div 64 div 4 = 0" "z div 64 mod 4 = z div 64" by simp_all
qed

lemma regroup0:
  fixes x :: nat
  shows "x div 4 * 4 + x mod 4 * 16 div 16 = x" "x mod 4 * 16 mod 16 = 0"
    "x div 16 * 16 + x mod 16 * 4 div 4 = x" "x mod 16 * 4 mod 4 = 0"
  by simp_all


lemma b64decode_b64encode: "b64decode (b64encode s) = Some s"
proof (induction s rule: b64encode.induct)
  case 1
  show ?case by simp
next
  case (2 a)
  have "of_char a < (256::nat)" by simp
  note s = sextets [OF this this this]
  show ?case
    by (simp add: Let_def dec6_enc6 s regroup0)
next
  case (3 a b)
  have a: "of_char a < (256::nat)" and b: "of_char b < (256::nat)" by simp_all
  note s = sextets [OF a b b]
  note h = regroup3 [OF b]
  show ?case
    by (simp add: Let_def dec6_enc6 s enc6_not_pad regroup0 regroup1 [OF b] h)
next
  case (4 a b c rest)
  have a: "of_char a < (256::nat)" and b: "of_char b < (256::nat)"
    and c: "of_char c < (256::nat)" by simp_all
  note s = sextets [OF a b c]
  show ?case
    using 4 [OF refl refl refl]
    by (simp add: Let_def dec6_enc6 s enc6_not_pad regroup3 [OF b] regroup4 [OF c])
qed

text \<open>
  \<^bold>\<open>C9\<close> does not hold for every string: a Python string may hold a lone surrogate,
  which \<^verbatim>\<open>s.encode()\<close> refuses. On the string of the single code point \<^verbatim>\<open>U+D800\<close> the
  helper raises \<^verbatim>\<open>UnicodeEncodeError\<close>, called directly or as the filter.
\<close>

theorem b64encode_surrogate_counterexample:
  "b64encode_lambda (VStr [CHR 0xED, CHR 0xA0, CHR 0x80]) = Inl UnicodeEncodeError
   \<and> eval_expr sample_call [(''password'', VStr [CHR 0xED, CHR 0xA0, CHR 0x80])]
        (Filter_b64encode (Name ''password'')) = Inl UnicodeEncodeError"
  by code_simp

text \<open>
  \<^bold>\<open>C9, amended.\<close> The helper is a function of its string argument alone. On every string
  without a lone surrogate it returns the RFC 4648 base64 text of the UTF-8 bytes of the
  string, decoding that text gives the string back, and \<^verbatim>\<open>admin123\<close> is encoded as
  \<^verbatim>\<open>YWRtaW4xMjM=\<close>; a template reaches the same function through the filter \<^verbatim>\<open>b64encode\<close>.
  On a string with a lone surrogate it raises \<^verbatim>\<open>UnicodeEncodeError\<close>.
\<close>

theorem b64encode_round_trip:
  "(\<not> has_surrogate s \<longrightarrow>
      b64encode_lambda (VStr s) = Inr (VStr (b64encode s))
      \<and> (\<forall>call c k. k \<notin> set engine_names \<and> map_of c k = Some (VStr s) \<longrightarrow>
            eval_expr call c (Filter_b64encode (Name k)) = Inr (Some (VStr (b64encode s)))))
   \<and> (has_surrogate s \<longrightarrow> b64encode_lambda (VStr s) = Inl UnicodeEncodeError)
   \<and> b64decode (b64encode s) = Some s
   \<and> b64encode_lambda (VStr ''admin123'') = Inr (VStr ''YWRtaW4xMjM='')"
proof -
  have "b64encode_lambda (VStr ''admin123'') = Inr (VStr ''YWRtaW4xMjM='')"
    by code_simp
  then show ?thesis
    by (simp add: b64encode_lambda_def b64decode_b64encode lookup_name_context)
qed

theorem b64encode_round_trip_witness:
  "b64encode_lambda (VStr ''admin123'') = Inr (VStr ''YWRtaW4xMjM='')
   \<and> b64decode ''YWRtaW4xMjM='' = Some ''admin123''"
proof -
  have e: "b64encode ''admin123'' = ''YWRtaW4xMjM=''"
    by code_simp
  note t = b64encode_round_trip [of "''admin123''"]
  from t have "b64decode (b64encode ''admin123'') = Some ''admin123''"
    by blast
  then have "b64decode ''YWRtaW4xMjM='' = Some ''admin123''"
    by (simp only: e)
  with t show ?thesis
    by blast
qed

subsection \<open>Facts about the file system\<close>

lemma walk_None: "walk w p = None \<longleftrightarrow> (\<forall>q \<in> set (ancestors p). has_dir w q)"
proof -
  have "walk w p = None \<longleftrightarrow> find (\<lambda>q. \<not> has_dir w q) (ancestors p) = None"
    by (simp add: walk_def split: option.splits)
  then show ?thesis
    by (auto simp: find_None_iff)
qed

lemma walk_Some:
  "walk w p = Some e \<Longrightarrow> e = NotADirectoryError \<or> e = FileNotFoundError"
  by (auto simp: walk_def split: option.splits if_splits)

lemma path_error_Some: "path_error p = Some e \<Longrightarrow> e = UnicodeEncodeError \<or> e = ValueError"
  by (auto simp: path_error_def split: if_splits)

lemma has_dir_mono: "has_dir w p \<Longrightarrow> set (dirs w) \<subseteq> set (dirs w') \<Longrightarrow> has_dir w' p"
  by (auto simp: has_dir_def)

lemma walk_mono: "walk w p = None \<Longrightarrow> set (dirs w) \<subseteq> set (dirs w') \<Longrightarrow> walk w' p = None"
  by (auto simp: walk_None intro: has_dir_mono)

lemma os_mkdir_Inr:
  "os_mkdir w p = Inr w' \<longleftrightarrow>
     path_error p = None \<and> walk w p = None \<and> \<not> has_dir w p \<and> \<not> has_file w p
     \<and> w' = w\<lparr>dirs := dirs w @ [p]\<rparr>"
  by (auto simp: os_mkdir_def split: option.splits)

lemma os_mkdir_Inl: "os_mkdir w p = Inl e \<Longrightarrow> exit_status (Inl e) = 1"
  by (auto simp: os_mkdir_def split: option.splits if_splits dest: walk_Some path_error_Some)

lemma os_mkdir_is_dir: "os_mkdir w p = Inr w' \<Longrightarrow> is_dir w' p"
  by (auto simp: os_mkdir_Inr is_dir_def has_dir_def intro: walk_mono)

lemma mkdir_parents_made:
  "os_mkdir w p = Inr w1 \<Longrightarrow> mkdir_parents w p = (Inr (), w1)"
  by (subst mkdir_parents.simps) simp

lemma mkdir_parents_other:
  "os_mkdir w p = Inl e \<Longrightarrow> e \<noteq> FileNotFoundError \<Longrightarrow>
     mkdir_parents w p = (if is_OSError e \<and> is_dir w p then (Inr (), w) else (Inl e, w))"
  by (subst mkdir_parents.simps) simp

lemma mkdir_parents_top:
  "os_mkdir w p = Inl FileNotFoundError \<Longrightarrow> parts p = [] \<Longrightarrow>
     mkdir_parents w p = (Inl FileNotFoundError, w)"
  by (subst mkdir_parents.simps) simp

lemma mkdir_parents_parent_fails:
  "os_mkdir w p = Inl FileNotFoundError \<Longrightarrow> parts p \<noteq> [] \<Longrightarrow>
   mkdir_parents w (parent p) = (Inl e, w1) \<Longrightarrow> mkdir_parents w p = (Inl e, w1)"
  by (subst mkdir_parents.simps) simp

lemma mkdir_parents_again:
  "os_mkdir w p = Inl FileNotFoundError \<Longrightarrow> parts p \<noteq> [] \<Longrightarrow>
   mkdir_parents w (parent p) = (Inr u, w1) \<Longrightarrow>
   mkdir_parents w p =
     (case os_mkdir w1 p of
        Inr w2 \<Rightarrow> (Inr (), w2)
      | Inl e \<Rightarrow>
          if e \<noteq> FileNotFoundError \<and> is_OSError e \<and> is_dir w1 p then (Inr (), w1)
          else (Inl e, w1))"
  by (subst mkdir_parents.simps) simp

lemma mkdir_parents_frame:
  "mkdir_parents w p = (r, w') \<Longrightarrow>
     files w' = files w \<and> writes w' = writes w \<and> set (dirs w) \<subseteq> set (dirs w')
     \<and> (\<forall>e. r = Inl e \<longrightarrow> exit_status r = 1)"
proof (induction w p arbitrary: r w' rule: mkdir_parents.induct)
  case (1 w p)
  show ?case
  proof (cases "os_mkdir w p")
    case (Inr w1)
    then have "w1 = w\<lparr>dirs := dirs w @ [p]\<rparr>"
      by (simp add: os_mkdir_Inr)
    with "1.prems" mkdir_parents_made [OF Inr] show ?thesis
      by auto
  next
    case (Inl e)
    note e = os_mkdir_Inl [OF Inl]
    show ?thesis
    proof (cases "e = FileNotFoundError")
      case False
      with "1.prems" mkdir_parents_other [OF Inl False] e show ?thesis
        by (auto split: if_splits)
    next
      case nf: True
      show ?thesis
      proof (cases "parts p = []")
        case True
        with "1.prems" mkdir_parents_top [OF Inl [unfolded nf] True] show ?thesis
          by auto
      next
        case False
        obtain r1 w1 where m: "mkdir_parents w (parent p) = (r1, w1)"
          by (cases "mkdir_parents w (parent p)")
        have ih: "files w1 = files w \<and> writes w1 = writes w \<and> set (dirs w) \<subseteq> set (dirs w1)
            \<and> (\<forall>e. r1 = Inl e \<longrightarrow> exit_status r1 = 1)"
          using "1.IH" [OF Inl nf False m] .
        show ?thesis
        proof (cases r1)
          case (Inl e1)
          with "1.prems" mkdir_parents_parent_fails [OF \<open>os_mkdir w p = Inl e\<close> [unfolded nf] False]
            m ih show ?thesis
            by auto
        next
          case (Inr u)
          note again = mkdir_parents_again [OF \<open>os_mkdir w p = Inl e\<close> [unfolded nf] False
              m [unfolded Inr]]
          show ?thesis
          proof (cases "os_mkdir w1 p")
            case (Inl e2)
            with "1.prems" again ih os_mkdir_Inl [OF Inl] show ?thesis
              by (auto split: if_splits)
          next
            case (Inr w2)
            then have "w2 = w1\<lparr>dirs := dirs w1 @ [p]\<rparr>"
              by (simp add: os_mkdir_Inr)
            with "1.prems" again ih Inr show ?thesis
              by auto
          qed
        qed
      qed
    qed
  qed
qed

lemma mkdir_parents_is_dir:
  assumes "mkdir_parents w p = (Inr u, w')"
  shows "is_dir w' p"
proof (cases "os_mkdir w p")
  case (Inr w1)
  with assms mkdir_parents_made [OF Inr] os_mkdir_is_dir [OF Inr] show ?thesis
    by simp
next
  case (Inl e)
  show ?thesis
  proof (cases "e = FileNotFoundError")
    case False
    with assms mkdir_parents_other [OF Inl False] show ?thesis
      by (auto split: if_splits)
  next
    case nf: True
    show ?thesis
    proof (cases "parts p = []")
      case True
      with assms mkdir_parents_top [OF Inl [unfolded nf] True] show ?thesis
        by simp
    next
      case False
      obtain r1 w1 where m: "mkdir_parents w (parent p) = (r1, w1)"
        by (cases "mkdir_parents w (parent p)")
      show ?thesis
      proof (cases r1)
        case (Inl e1)
        with assms mkdir_parents_parent_fails [OF \<open>os_mkdir w p = Inl e\<close> [unfolded nf] False] m
        show ?thesis
          by auto
      next
        case (Inr u1)
        note again = mkdir_parents_again [OF \<open>os_mkdir w p = Inl e\<close> [unfolded nf] False
            m [unfolded Inr]]
        show ?thesis
        proof (cases "os_mkdir w1 p")
          case (Inl e2)
          with assms again show ?thesis
            by (auto split: if_splits)
        next
          case (Inr w2)
          with assms again os_mkdir_is_dir [OF Inr] show ?thesis
            by auto
        qed
      qed
    qed
  qed
qed

lemma map_of_file_set: "map_of (file_set fs p t) = (map_of fs)(p \<mapsto> t)"
  by (induction fs p t rule: file_set.induct) (auto simp: fun_eq_iff)

lemma write_file_Inr:
  "write_file w p t = (Inr u, w') \<longleftrightarrow>
     path_error p = None \<and> walk w p = None \<and> \<not> has_dir w p \<and> \<not> has_surrogate t
     \<and> w' = w\<lparr>files := file_set (files w) p t, writes := writes w @ [p]\<rparr>"
  by (auto simp: write_file_def split: option.splits)

lemma write_file_succeeds:
  "path_error p = None \<Longrightarrow> walk w p = None \<Longrightarrow> \<not> has_dir w p \<Longrightarrow>
     write_file w p t =
       (if has_surrogate t then (Inl UnicodeEncodeError, w\<lparr>files := file_set (files w) p []\<rparr>)
        else (Inr (), w\<lparr>files := file_set (files w) p t, writes := writes w @ [p]\<rparr>))"
  by (simp add: write_file_def)

lemma write_file_frame:
  "write_file w p t = (r, w') \<Longrightarrow> dirs w' = dirs w"
  by (auto simp: write_file_def split: option.splits if_splits)

subsection \<open>Sequencing\<close>

lemma then_do_Inr:
  "then_do m k w = (Inr y, w') \<longleftrightarrow> (\<exists>x w1. m w = (Inr x, w1) \<and> k x w1 = (Inr y, w'))"
  by (auto simp: then_do_def split: prod.splits sum.splits)

lemma then_do_fails: "m w = (Inl e, w') \<Longrightarrow> then_do m k w = (Inl e, w')"
  by (simp add: then_do_def)

lemma then_do_continues: "m w = (Inr x, w') \<Longrightarrow> then_do m k w = k x w'"
  by (simp add: then_do_def)

lemma pure_eq: "pure r w = (r', w') \<longleftrightarrow> r = r' \<and> w = w'"
  by (auto simp: pure_def)

lemma render_template_Inr:
  "render_template L od t c w = (Inr p, w') \<longleftrightarrow>
     (\<exists>tpl rendered. get_template L w t = Inr tpl \<and> tpl c = Inr rendered
        \<and> p = join od (output_name (py_str L) t c) \<and> write_file w p rendered = (Inr (), w'))"
  by (auto simp: render_template_def Let_def split: sum.splits prod.splits)

lemma render_template_render_fails:
  "get_template L w t = Inr tpl \<Longrightarrow> tpl c = Inl e \<Longrightarrow> render_template L od t c w = (Inl e, w)"
  by (simp add: render_template_def)

lemma render_template_rendered:
  "get_template L w t = Inr tpl \<Longrightarrow> tpl c = Inr rendered \<Longrightarrow>
     render_template L od t c w =
       (case write_file w (join od (output_name (py_str L) t c)) rendered of
          (Inl e, w') \<Rightarrow> (Inl e, w')
        | (Inr u, w') \<Rightarrow> (Inr (join od (output_name (py_str L) t c)), w'))"
  by (simp add: render_template_def Let_def)

lemma render_template_writes:
  "render_template L od t c w = (Inr p, w') \<Longrightarrow>
     writes w' = writes w @ [p] \<and> dirs w' = dirs w \<and> p = join od (output_name (py_str L) t c)"
  by (auto simp: render_template_Inr write_file_Inr)

subsection \<open>Names of paths\<close>

lemma split_on_not_Nil: "split_on c s \<noteq> []"
  by (induction s) (auto split: list.splits)

lemma split_on_no_sep: "c \<notin> set t \<Longrightarrow> split_on c t = [t]"
  by (induction t) auto

lemma split_on_append:
  "c \<notin> set t \<Longrightarrow> split_on c (s @ t) = butlast (split_on c s) @ [last (split_on c s) @ t]"
proof (induction s)
  case Nil
  then show ?case by (simp add: split_on_no_sep)
next
  case (Cons x s)
  show ?case
  proof (cases "x = c")
    case True
    then show ?thesis using Cons by (simp add: split_on_not_Nil)
  next
    case False
    obtain y ys where s: "split_on c s = y # ys"
      using split_on_not_Nil [of c s] by (cases "split_on c s") auto
    show ?thesis
      using False Cons s by (cases ys) auto
  qed
qed

lemma parts_of_append:
  assumes "CHR ''/'' \<notin> set t" and "2 \<le> length t"
  shows "\<exists>ps u. parts_of (s @ t) = ps @ [u @ t]"
proof -
  let ?u = "last (split_on CHR ''/'' s)"
  have "?u @ t \<noteq> []" "?u @ t \<noteq> ''.''"
    using assms(2) by (auto simp: append_eq_Cons_conv)
  then have "parts_of (s @ t) =
      filter (\<lambda>p. p \<noteq> [] \<and> p \<noteq> ''.'') (butlast (split_on CHR ''/'' s)) @ [?u @ t]"
    by (simp add: parts_of_def split_on_append [OF assms(1)])
  then show ?thesis by blast
qed

lemma name_join:
  assumes "CHR ''/'' \<notin> set t" and "2 \<le> length t"
  shows "\<exists>u. name (join od (s @ t)) = u @ t"
proof -
  obtain ps u where "parts_of (s @ t) = ps @ [u @ t]"
    using parts_of_append [OF assms] by blast
  then show ?thesis
    by (auto simp: name_def join_def to_path_def)
qed

lemma name_join_plain:
  assumes "CHR ''/'' \<notin> set t" and "2 \<le> length t"
  shows "name (join od t) = t"
proof -
  have "t \<noteq> []" "t \<noteq> ''.''" using assms(2) by auto
  then show ?thesis
    by (simp add: name_def join_def to_path_def parts_of_def split_on_no_sep [OF assms(1)])
qed

lemma output_name_suffix:
  assumes "CHR ''.'' \<notin> set stem"
  shows "\<exists>s. output_name str (stem @ ''.j2'') c = s @ stem @ ''.yaml''"
proof (cases "map_of c ''service_name''")
  case None
  then have "output_name str (stem @ ''.j2'') c = [] @ stem @ ''.yaml''"
    using assms by (simp add: output_name_def py_replace_j2_stem)
  then show ?thesis by blast
next
  case (Some v)
  then have "output_name str (stem @ ''.j2'') c = (format_value str v @ ''-'') @ stem @ ''.yaml''"
    using assms by (simp add: output_name_def py_replace_j2_stem)
  then show ?thesis by blast
qed

lemma name_output:
  assumes "CHR ''.'' \<notin> set stem" and "CHR ''/'' \<notin> set stem"
  shows "\<exists>u. name (join od (output_name str (stem @ ''.j2'') c)) = u @ stem @ ''.yaml''"
proof -
  obtain s where "output_name str (stem @ ''.j2'') c = s @ stem @ ''.yaml''"
    using output_name_suffix [OF assms(1)] by blast
  moreover have "CHR ''/'' \<notin> set (stem @ ''.yaml'')" "2 \<le> length (stem @ ''.yaml'')"
    using assms(2) by auto
  ultimately show ?thesis
    using name_join [of "stem @ ''.yaml''" od s] by auto
qed

lemma not_kustomization:
  "u @ ''postgres-statefulset.yaml'' \<noteq> ''kustomization.yaml''"
  "u @ ''deployment.yaml'' \<noteq> ''kustomization.yaml''"
  "u @ ''service.yaml'' \<noteq> ''kustomization.yaml''"
  "u @ ''ingress.yaml'' \<noteq> ''kustomization.yaml''"
proof -
  have r: "a \<noteq> b" if "rev a \<noteq> rev b" for a b :: string
    using that by auto
  show "u @ ''postgres-statefulset.yaml'' \<noteq> ''kustomization.yaml''"
    "u @ ''deployment.yaml'' \<noteq> ''kustomization.yaml''"
    "u @ ''service.yaml'' \<noteq> ''kustomization.yaml''"
    "u @ ''ingress.yaml'' \<noteq> ''kustomization.yaml''"
    by (rule r, simp)+
qed

lemma name_rendered_not_kustomization:
  assumes "t \<in> {''postgres-statefulset.j2'', ''deployment.j2'', ''service.j2'', ''ingress.j2''}"
  shows "name (join od (output_name str t c)) \<noteq> ''kustomization.yaml''"
proof -
  consider "t = ''postgres-statefulset'' @ ''.j2''" | "t = ''deployment'' @ ''.j2''"
    | "t = ''service'' @ ''.j2''" | "t = ''ingress'' @ ''.j2''"
    using assms by auto
  then show ?thesis
  proof cases
    case 1
    then show ?thesis
      using name_output [of "''postgres-statefulset''" od str c] by (auto simp: not_kustomization)
  next
    case 2
    then show ?thesis
      using name_output [of "''deployment''" od str c] by (auto simp: not_kustomization)
  next
    case 3
    then show ?thesis
      using name_output [of "''service''" od str c] by (auto simp: not_kustomization)
  next
    case 4
    then show ?thesis
      using name_output [of "''ingress''" od str c] by (auto simp: not_kustomization)
  qed
qed

subsection \<open>The run\<close>

lemma ingress_output_name:
  assumes "ingress_context values = Inr c"
  shows "output_name str ''ingress.j2'' c = ''ingress.yaml''"
proof -
  have "map_of c ''service_name'' = None"
    using ingress_context_Inr [OF assms] by auto
  moreover have "py_replace ''.j2'' ''.yaml'' ''ingress.j2'' = ''ingress.yaml''"
    using py_replace_j2_stem [of "''ingress''"] by simp
  ultimately show ?thesis
    by (simp add: output_name_def)
qed

lemma postgres_output_name:
  assumes "postgres_context values = Inr c"
  shows "output_name str ''postgres-statefulset.j2'' c = ''postgres-statefulset.yaml''"
proof -
  have "map_of c ''service_name'' = None"
    using assms by (auto simp: postgres_context_Inr)
  moreover have "py_replace ''.j2'' ''.yaml'' ''postgres-statefulset.j2'' = ''postgres-statefulset.yaml''"
    using py_replace_j2_stem [of "''postgres-statefulset''"] by simp
  ultimately show ?thesis
    by (simp add: output_name_def)
qed

lemma ingress_enabled_Inr:
  "ingress_enabled values = Inr b \<longleftrightarrow>
     (map_of values ''ingress'' = None \<and> \<not> b)
     \<or> (\<exists>ingress. map_of values ''ingress'' = Some (VDict ingress)
           \<and> (case map_of ingress ''enabled'' of None \<Rightarrow> \<not> b | Some v \<Rightarrow> b = truthy v))"
  by (auto simp: ingress_enabled_def split: option.splits pyval.splits)

lemma render_ingress_disabled:
  "ingress_enabled values = Inr False \<Longrightarrow> render_ingress L od values w = (Inr [], w)"
  by (simp add: render_ingress_def then_do_def pure_def)

lemma render_ingress_Inr:
  assumes "render_ingress L od values w = (Inr fs, w')"
  shows "(ingress_enabled values = Inr False \<and> fs = [] \<and> w' = w)
     \<or> (ingress_enabled values = Inr True \<and> fs = [join od ''ingress.yaml'']
          \<and> writes w' = writes w @ fs \<and> dirs w' = dirs w)"
proof -
  obtain b where b: "ingress_enabled values = Inr b"
    using assms by (cases "ingress_enabled values") (auto simp: render_ingress_def then_do_def pure_def)
  show ?thesis
  proof (cases b)
    case False
    with b assms render_ingress_disabled [of "values" L od w] show ?thesis
      by simp
  next
    case True
    with b assms obtain c f where c: "ingress_context values = Inr c"
        and f: "render_template L od ''ingress.j2'' c w = (Inr f, w')" and fs: "fs = [f]"
      by (auto simp: render_ingress_def then_do_Inr pure_eq)
    from render_template_writes [OF f] ingress_output_name [OF c] b True fs show ?thesis
      by simp
  qed
qed

lemma render_all_Inr:
  assumes "render_all L od values w = (Inr fs, w')"
  shows "\<exists>c1 c2 c3 ing.
      postgres_context values = Inr c1
    \<and> service_context values ''python_service'' = Inr c2
    \<and> service_context values ''nodejs_service'' = Inr c3
    \<and> fs = [join od ''postgres-statefulset.yaml'',
             join od (output_name (py_str L) ''deployment.j2'' c2),
             join od (output_name (py_str L) ''service.j2'' c2),
             join od (output_name (py_str L) ''deployment.j2'' c3),
             join od (output_name (py_str L) ''service.j2'' c3)] @ ing
    \<and> (ingress_enabled values = Inr False \<and> ing = []
        \<or> ingress_enabled values = Inr True \<and> ing = [join od ''ingress.yaml''])
    \<and> writes w' = writes w @ fs \<and> dirs w' = dirs w"
proof -
  from assms obtain c1 f1 w1 c2 f2 w2 f3 w3 c3 f4 w4 f5 w5 ing where
    c1: "postgres_context values = Inr c1"
    and f1: "render_template L od ''postgres-statefulset.j2'' c1 w = (Inr f1, w1)"
    and c2: "service_context values ''python_service'' = Inr c2"
    and f2: "render_template L od ''deployment.j2'' c2 w1 = (Inr f2, w2)"
    and f3: "render_template L od ''service.j2'' c2 w2 = (Inr f3, w3)"
    and c3: "service_context values ''nodejs_service'' = Inr c3"
    and f4: "render_template L od ''deployment.j2'' c3 w3 = (Inr f4, w4)"
    and f5: "render_template L od ''service.j2'' c3 w4 = (Inr f5, w5)"
    and ing: "render_ingress L od values w5 = (Inr ing, w')"
    and fs: "fs = [f1, f2, f3, f4, f5] @ ing"
    unfolding render_all_def then_do_Inr pure_eq by auto
  note r1 = render_template_writes [OF f1] and r2 = render_template_writes [OF f2]
    and r3 = render_template_writes [OF f3] and r4 = render_template_writes [OF f4]
    and r5 = render_template_writes [OF f5]
  have p: "f1 = join od ''postgres-statefulset.yaml''"
    using r1 postgres_output_name [OF c1] by simp
  have w5: "writes w5 = writes w @ [f1, f2, f3, f4, f5]" "dirs w5 = dirs w"
    using r1 r2 r3 r4 r5 by simp_all
  from render_ingress_Inr [OF ing] w5
  have "(ingress_enabled values = Inr False \<and> ing = []
        \<or> ingress_enabled values = Inr True \<and> ing = [join od ''ingress.yaml''])
      \<and> writes w' = writes w @ fs \<and> dirs w' = dirs w"
    using fs by auto
  with c1 c2 c3 fs p r2 r3 r4 r5 show ?thesis
    by auto
qed

lemma write_kustomization_Inr:
  "write_kustomization L od fs w = (Inr u, w') \<longleftrightarrow>
     write_file w (join od ''kustomization.yaml'') (yaml_dump L (kustomization fs)) = (Inr (), w')"
  by (simp add: write_kustomization_def)

lemma main_Inr:
  assumes "main L environment output_dir_arg w = (Inr u, w')"
  shows "\<exists>w1 vs fs w2.
      mkdir_parents w (join (to_path output_dir_arg) environment) = (Inr (), w1)
    \<and> load_values L environment w1 = Inr vs
    \<and> render_all L (join (to_path output_dir_arg) environment) vs w1 = (Inr fs, w2)
    \<and> write_kustomization L (join (to_path output_dir_arg) environment) fs w2 = (Inr u, w')"
proof -
  have "environment \<in> set [''dev'', ''staging'', ''prod'']"
    using assms by (auto simp: main_def pure_def split: if_splits)
  with assms show ?thesis
    by (auto simp: main_def Let_def then_do_Inr)
qed

subsection \<open>The run as a list of units\<close>

lemma then_do_pure_Inr: "then_do (pure (Inr x)) k = k x"
  by (simp add: then_do_def pure_def fun_eq_iff)

lemma then_do_pure_Inl: "then_do (pure (Inl e)) k = pure (Inl e)"
  by (simp add: then_do_def pure_def fun_eq_iff)

lemma then_do_assoc: "then_do (then_do m f) g = then_do m (\<lambda>x. then_do (f x) g)"
  by (simp add: then_do_def fun_eq_iff split: prod.splits sum.splits)

lemma then_do_const_Inl: "then_do m (\<lambda>x. pure (Inl e)) = then_do m (\<lambda>x. then_do (pure (Inl e)) k)"
  by (simp add: then_do_pure_Inl)

lemma render_all_run_units: "render_all L od vs = run_units L od (units vs)"
proof -
  note laws = then_do_assoc then_do_pure_Inr then_do_pure_Inl
  show ?thesis
  proof (cases "postgres_context vs")
    case Inl
    then show ?thesis by (simp add: render_all_def units_def laws)
  next
    case c1: Inr
    show ?thesis
    proof (cases "service_context vs ''python_service''")
      case Inl
      with c1 show ?thesis by (simp add: render_all_def units_def laws)
    next
      case c2: Inr
      show ?thesis
      proof (cases "service_context vs ''nodejs_service''")
        case Inl
        with c1 c2 show ?thesis by (simp add: render_all_def units_def laws)
      next
        case c3: Inr
        show ?thesis
        proof (cases "ingress_enabled vs")
          case Inl
          with c1 c2 c3 show ?thesis
            by (simp add: render_all_def units_def render_ingress_def laws)
        next
          case (Inr b)
          show ?thesis
          proof (cases b)
            case False
            with c1 c2 c3 Inr show ?thesis
              by (simp add: render_all_def units_def render_ingress_def laws)
          next
            case True
            with c1 c2 c3 Inr show ?thesis
              by (cases "ingress_context vs")
                (simp_all add: render_all_def units_def render_ingress_def laws)
          qed
        qed
      qed
    qed
  qed
qed

lemma run_units_append:
  "run_units L od (us @ vs) =
     then_do (run_units L od us) (\<lambda>fs. then_do (run_units L od vs) (\<lambda>gs. pure (Inr (fs @ gs))))"
proof (induction us)
  case Nil
  have "then_do (run_units L od vs) (\<lambda>gs. pure (Inr gs)) = run_units L od vs"
    by (simp add: then_do_def pure_def fun_eq_iff split: prod.splits sum.splits)
  then show ?case
    by (simp add: then_do_pure_Inr)
next
  case (Cons u us)
  obtain t c where u: "u = (t, c)" by (cases u)
  show ?case
    by (simp add: u Cons then_do_assoc then_do_pure_Inr)
qed

lemma apply_writes_append: "apply_writes (ps @ qs) w = apply_writes qs (apply_writes ps w)"
  by (induction ps arbitrary: w) auto

lemma writes_apply_writes: "writes (apply_writes ps w) = writes w @ map fst ps"
  by (induction ps arbitrary: w) auto

lemma dirs_apply_writes: "dirs (apply_writes ps w) = dirs w"
  by (induction ps arbitrary: w) auto

lemma files_apply_writes:
  "map_of (files (apply_writes ps w)) = map_of (files w) ++ map_of (rev ps)"
proof (induction ps arbitrary: w)
  case Nil
  then show ?case by simp
next
  case (Cons a ps)
  obtain p t where a: "a = (p, t)" by (cases a)
  show ?case
    by (simp add: a Cons map_of_file_set fun_eq_iff map_add_def split: option.splits)
qed

lemma files_apply_writes_other:
  "p \<notin> fst ` set ps \<Longrightarrow> map_of (files (apply_writes ps w)) p = map_of (files w) p"
  by (simp add: files_apply_writes map_add_def map_of_eq_None_iff [THEN iffD2] split: option.splits)

lemma has_file_apply_writes:
  "p \<in> fst ` set ps \<Longrightarrow> has_file (apply_writes ps w) p"
proof -
  assume "p \<in> fst ` set ps"
  then have "map_of (rev ps) p \<noteq> None"
    by (simp add: map_of_eq_None_iff)
  then show ?thesis
    by (auto simp: has_file_def files_apply_writes map_add_def split: option.splits)
qed

lemma run_units_Inr:
  "run_units L od us w = (Inr fs, w') \<Longrightarrow>
     \<exists>ps. produced L od us w ps \<and> map fst ps = fs \<and> w' = apply_writes ps w
       \<and> (\<forall>x \<in> set (map snd ps). \<not> has_surrogate x)"
proof (induction us arbitrary: w fs w')
  case Nil
  then show ?case
    by (simp add: pure_eq)
next
  case (Cons u us)
  obtain t cf where u: "u = (t, cf)" by (cases u)
  from Cons.prems obtain c f w1 fs' where cf: "cf = Inr c"
    and r: "render_template L od t c w = (Inr f, w1)"
    and rest: "run_units L od us w1 = (Inr fs', w')" and fs: "fs = f # fs'"
    unfolding u run_units.simps then_do_Inr pure_eq by auto
  from r obtain tpl x where g: "get_template L w t = Inr tpl" "tpl c = Inr x"
    and f: "f = join od (output_name (py_str L) t c)"
    and wf: "write_file w f x = (Inr (), w1)"
    unfolding render_template_Inr by auto
  from wf have w1: "w1 = apply_writes [(f, x)] w" and x: "\<not> has_surrogate x"
    by (simp_all add: write_file_Inr)
  from Cons.IH [OF rest] obtain ps where ps: "produced L od us w1 ps" "map fst ps = fs'"
    "w' = apply_writes ps w1" "\<forall>x \<in> set (map snd ps). \<not> has_surrogate x"
    by blast
  have "produced L od (u # us) w ((f, x) # ps)"
    using ps(1) g f w1 by (simp add: u cf)
  moreover have "map fst ((f, x) # ps) = fs"
    using ps(2) fs by simp
  moreover have "w' = apply_writes ((f, x) # ps) w"
    using ps(3) w1 by simp
  moreover have "\<forall>x \<in> set (map snd ((f, x) # ps)). \<not> has_surrogate x"
    using ps(4) x by simp
  ultimately show ?case
    by blast
qed

lemma produced_length: "produced L od us w ps \<Longrightarrow> length ps = length us"
  by (induction L od us w ps rule: produced.induct) (auto split: sum.splits)

lemma run_units_fail_stop:
  assumes "run_units L od pre w = (Inr fs, w1)"
    and "get_template L w1 t = Inr tpl" and "tpl c = Inl e"
  shows "run_units L od (pre @ (t, Inr c) # post) w = (Inl e, w1)"
proof -
  have "render_template L od t c w1 = (Inl e, w1)"
    using assms(2,3) by (rule render_template_render_fails)
  then have "run_units L od ((t, Inr c) # post) w1 = (Inl e, w1)"
    by (simp add: then_do_pure_Inr then_do_fails)
  then have "then_do (run_units L od ((t, Inr c) # post)) (\<lambda>gs. pure (Inr (fs @ gs))) w1
      = (Inl e, w1)"
    by (rule then_do_fails)
  with assms(1) show ?thesis
    by (simp add: run_units_append then_do_continues)
qed

lemma output_name_length:
  assumes "CHR ''.'' \<notin> set stem"
  shows "2 \<le> length (output_name str (stem @ ''.j2'') c)"
proof -
  obtain s where "output_name str (stem @ ''.j2'') c = s @ stem @ ''.yaml''"
    using output_name_suffix [OF assms] by blast
  then show ?thesis by simp
qed

lemma name_join_output:
  assumes "t = ''deployment.j2'' \<or> t = ''service.j2''"
    and "CHR ''/'' \<notin> set (output_name str t c)"
  shows "name (join od (output_name str t c)) = output_name str t c"
proof -
  have "2 \<le> length (output_name str t c)"
    using assms(1) output_name_length [of "''deployment''" str c]
      output_name_length [of "''service''" str c] by auto
  with assms(2) show ?thesis
    by (rule name_join_plain)
qed

text \<open>
  A run that succeeds has made the output directory, loaded the values
  and written, in this order, the PostgreSQL artifact, the deployment and the service
  artifact of the Python service, those of the Node.js service, the Ingress artifact when
  the flag is true, and last \<^verbatim>\<open>kustomization.yaml\<close>. Every artifact has the path that its
  unit derives and the text that its template rendered, and the file system at the end is
  the one after the output directory was made with exactly these files written: each path
  holds the text written to it last, and every other file is as before. The aggregator
  file holds the dump of the aggregator document, whose \<^verbatim>\<open>resources\<close> are the last path
  components of the artifacts in the order in which they were written, repeated names
  included: 1 + 2 \<times> 2 of them, and one more with the Ingress. They are the derived output
  names when no derived name has a slash. The aggregator is written once and is not among
  its own resources.
\<close>

theorem main_success_aggregator:
  assumes "main L environment output_dir_arg w = (Inr u, w')"
  shows "\<exists>w1 vs ps fs c2 c3.
      mkdir_parents w (join (to_path output_dir_arg) environment) = (Inr (), w1)
    \<and> load_values L environment w1 = Inr vs
    \<and> service_context vs ''python_service'' = Inr c2
    \<and> service_context vs ''nodejs_service'' = Inr c3
    \<and> fs = [join (join (to_path output_dir_arg) environment) ''postgres-statefulset.yaml'',
             join (join (to_path output_dir_arg) environment)
               (output_name (py_str L) ''deployment.j2'' c2),
             join (join (to_path output_dir_arg) environment)
               (output_name (py_str L) ''service.j2'' c2),
             join (join (to_path output_dir_arg) environment)
               (output_name (py_str L) ''deployment.j2'' c3),
             join (join (to_path output_dir_arg) environment)
               (output_name (py_str L) ''service.j2'' c3)]
            @ (if ingress_enabled vs = Inr True
               then [join (join (to_path output_dir_arg) environment) ''ingress.yaml'']
               else [])
    \<and> length fs = 1 + 2 * 2 + (if ingress_enabled vs = Inr True then 1 else 0)
    \<and> writes w' = writes w @ fs @ [join (join (to_path output_dir_arg) environment) ''kustomization.yaml'']
    \<and> map_of (files w') (join (join (to_path output_dir_arg) environment) ''kustomization.yaml'')
        = Some (yaml_dump L (kustomization fs))
    \<and> map_of (case kustomization fs of VDict d \<Rightarrow> d | _ \<Rightarrow> []) ''resources''
        = Some (VList (map (\<lambda>f. VStr (name f)) fs))
    \<and> ''kustomization.yaml'' \<notin> set (map name fs)
    \<and> join (join (to_path output_dir_arg) environment) ''kustomization.yaml'' \<notin> set fs
    \<and> map fst ps = fs
    \<and> produced L (join (to_path output_dir_arg) environment) (units vs) w1 ps
    \<and> w' = apply_writes
              (ps @ [(join (join (to_path output_dir_arg) environment) ''kustomization.yaml'',
                      yaml_dump L (kustomization fs))]) w1
    \<and> map_of (files w') = map_of (files w) ++
          map_of (rev (ps @ [(join (join (to_path output_dir_arg) environment) ''kustomization.yaml'',
                              yaml_dump L (kustomization fs))]))
    \<and> (\<forall>f \<in> set fs. has_file w' f)
    \<and> ((\<forall>n \<in> set (derived_names L vs). CHR ''/'' \<notin> set n) \<longrightarrow>
          map name fs = derived_names L vs)"
proof -
  let ?od = "join (to_path output_dir_arg) environment"
  let ?k = "join ?od ''kustomization.yaml''"
  obtain w1 vs fs w2 where m: "mkdir_parents w ?od = (Inr (), w1)"
    and l: "load_values L environment w1 = Inr vs"
    and r: "render_all L ?od vs w1 = (Inr fs, w2)"
    and k: "write_kustomization L ?od fs w2 = (Inr u, w')"
    using main_Inr [OF assms] by blast
  obtain c1 c2 c3 ing where c: "postgres_context vs = Inr c1"
      "service_context vs ''python_service'' = Inr c2"
      "service_context vs ''nodejs_service'' = Inr c3"
    and fs: "fs = [join ?od ''postgres-statefulset.yaml'',
             join ?od (output_name (py_str L) ''deployment.j2'' c2),
             join ?od (output_name (py_str L) ''service.j2'' c2),
             join ?od (output_name (py_str L) ''deployment.j2'' c3),
             join ?od (output_name (py_str L) ''service.j2'' c3)] @ ing"
    and ing: "ingress_enabled vs = Inr False \<and> ing = []
        \<or> ingress_enabled vs = Inr True \<and> ing = [join ?od ''ingress.yaml'']"
    and w2: "writes w2 = writes w1 @ fs"
    using render_all_Inr [OF r] by blast
  have ing': "ing = (if ingress_enabled vs = Inr True then [join ?od ''ingress.yaml''] else [])"
    using ing by auto
  obtain ps where ps: "produced L ?od (units vs) w1 ps" "map fst ps = fs"
    "w2 = apply_writes ps w1"
    using run_units_Inr [OF r [unfolded render_all_run_units]] by blast
  have w1: "writes w1 = writes w" "files w1 = files w"
    using mkdir_parents_frame [OF m] by simp_all
  let ?d = "yaml_dump L (kustomization fs)"
  have wk: "w' = apply_writes [(?k, ?d)] w2"
    using k by (simp add: write_kustomization_Inr write_file_Inr)
  then have w': "w' = apply_writes (ps @ [(?k, ?d)]) w1"
    using ps(3) by (simp add: apply_writes_append)
  have d: "name (join ?od (output_name (py_str L) t c)) \<noteq> ''kustomization.yaml''"
    if "t = ''deployment.j2'' \<or> t = ''service.j2''" for t c
    using that name_rendered_not_kustomization [of t ?od "py_str L" c] by auto
  have "\<forall>f \<in> set fs. name f \<noteq> ''kustomization.yaml''"
    unfolding fs using ing d [of "''deployment.j2''"] d [of "''service.j2''"]
    by (auto simp: name_join_plain)
  then have n1: "''kustomization.yaml'' \<notin> set (map name fs)"
    by auto
  have "name ?k = ''kustomization.yaml''"
    by (simp add: name_join_plain)
  with n1 have n2: "?k \<notin> set fs"
    by force
  have len: "length fs = 1 + 2 * 2 + (if ingress_enabled vs = Inr True then 1 else 0)"
    using fs ing by auto
  have wr: "writes w' = writes w @ fs @ [?k]"
    using w' w1 ps(2) by (simp add: writes_apply_writes)
  have fl: "map_of (files w') = map_of (files w) ++ map_of (rev (ps @ [(?k, ?d)]))"
    using w' w1 by (simp only: files_apply_writes)
  have kf: "map_of (files w') ?k = Some ?d"
    using fl by (simp add: map_add_def)
  have res: "map_of (case kustomization fs of VDict d \<Rightarrow> d | _ \<Rightarrow> []) ''resources''
        = Some (VList (map (\<lambda>f. VStr (name f)) fs))"
    by (simp add: kustomization_def)
  have hf: "\<forall>f \<in> set fs. has_file w' f"
  proof
    fix f assume "f \<in> set fs"
    then have "f \<in> fst ` set (ps @ [(?k, ?d)])"
      using ps(2) by force
    then show "has_file w' f"
      unfolding w' by (rule has_file_apply_writes)
  qed
  have dn: "map name fs = derived_names L vs"
    if h: "\<forall>n \<in> set (derived_names L vs). CHR ''/'' \<notin> set n"
  proof -
    have dnames: "derived_names L vs =
        [output_name (py_str L) ''postgres-statefulset.j2'' c1,
         output_name (py_str L) ''deployment.j2'' c2,
         output_name (py_str L) ''service.j2'' c2,
         output_name (py_str L) ''deployment.j2'' c3,
         output_name (py_str L) ''service.j2'' c3]
        @ (if ingress_enabled vs = Inr True
           then (case ingress_context vs of Inl e \<Rightarrow> []
                 | Inr c4 \<Rightarrow> [output_name (py_str L) ''ingress.j2'' c4])
           else [])"
      using c ing by (auto simp: derived_names_def units_def)
    have pn: "output_name (py_str L) ''postgres-statefulset.j2'' c1 = ''postgres-statefulset.yaml''"
      using c(1) by (rule postgres_output_name)
    have four: "name (join ?od (output_name (py_str L) t cc)) = output_name (py_str L) t cc"
      if "t = ''deployment.j2'' \<or> t = ''service.j2''"
        "output_name (py_str L) t cc \<in> set (derived_names L vs)" for t cc
      using that h name_join_output [of t "py_str L" cc ?od] by blast
    show ?thesis
    proof (cases "ingress_enabled vs = Inr True")
      case False
      with ing have "ing = []" by auto
      with False dnames pn fs four show ?thesis
        by (simp add: name_join_plain)
    next
      case True
      with ing have i: "ing = [join ?od ''ingress.yaml'']" by auto
      from True r obtain c4 where c4: "ingress_context vs = Inr c4"
        using c by (cases "ingress_context vs")
          (auto simp: render_all_def render_ingress_def then_do_Inr pure_eq)
      have "output_name (py_str L) ''ingress.j2'' c4 = ''ingress.yaml''"
        using c4 by (rule ingress_output_name)
      with True i c4 dnames pn fs four show ?thesis
        by (simp add: name_join_plain)
    qed
  qed
  from m l c(2,3) fs [unfolded ing'] len wr kf res n1 n2 ps(1,2) w' fl hf dn ing'
  show ?thesis
    by blast
qed


theorem main_success_aggregator_witness:
  "fst (main sample_lib ''dev'' ''out'' sample_world) = Inr ()
   \<and> writes (snd (main sample_lib ''dev'' ''out'' sample_world)) =
       [Path [] [''out'', ''dev'', ''postgres-statefulset.yaml''],
        Path [] [''out'', ''dev'', ''api-deployment.yaml''],
        Path [] [''out'', ''dev'', ''api-service.yaml''],
        Path [] [''out'', ''dev'', ''worker-deployment.yaml''],
        Path [] [''out'', ''dev'', ''worker-service.yaml''],
        Path [] [''out'', ''dev'', ''ingress.yaml''],
        Path [] [''out'', ''dev'', ''kustomization.yaml'']]
   \<and> map_of (files (snd (main sample_lib ''dev'' ''out'' sample_world)))
         (Path [] [''out'', ''dev'', ''kustomization.yaml'']) =
       Some (''- postgres-statefulset.yaml; - api-deployment.yaml; - api-service.yaml; ''
             @ ''- worker-deployment.yaml; - worker-service.yaml; - ingress.yaml; '')
   \<and> map_of (files (snd (main sample_lib ''dev'' ''out'' sample_world)))
         (Path [] [''out'', ''dev'', ''api-service.yaml'']) =
       Some ''service: api token: YWRtaW4xMjM=''"
proof -
  have f: "fst (main sample_lib ''dev'' ''out'' sample_world) = Inr ()"
    by code_simp
  then have h: "main sample_lib ''dev'' ''out'' sample_world
      = (Inr (), snd (main sample_lib ''dev'' ''out'' sample_world))"
    by (simp add: prod_eq_iff)
  have w: "writes (snd (main sample_lib ''dev'' ''out'' sample_world)) =
       [Path [] [''out'', ''dev'', ''postgres-statefulset.yaml''],
        Path [] [''out'', ''dev'', ''api-deployment.yaml''],
        Path [] [''out'', ''dev'', ''api-service.yaml''],
        Path [] [''out'', ''dev'', ''worker-deployment.yaml''],
        Path [] [''out'', ''dev'', ''worker-service.yaml''],
        Path [] [''out'', ''dev'', ''ingress.yaml''],
        Path [] [''out'', ''dev'', ''kustomization.yaml'']]"
    by code_simp
  have k: "map_of (files (snd (main sample_lib ''dev'' ''out'' sample_world)))
         (Path [] [''out'', ''dev'', ''kustomization.yaml'']) =
       Some (''- postgres-statefulset.yaml; - api-deployment.yaml; - api-service.yaml; ''
             @ ''- worker-deployment.yaml; - worker-service.yaml; - ingress.yaml; '')"
    by code_simp
  have s: "map_of (files (snd (main sample_lib ''dev'' ''out'' sample_world)))
         (Path [] [''out'', ''dev'', ''api-service.yaml'']) =
       Some ''service: api token: YWRtaW4xMjM=''"
    by code_simp
  from main_success_aggregator [OF h] obtain fs
    where "writes (snd (main sample_lib ''dev'' ''out'' sample_world))
      = writes sample_world @ fs @ [join (join (to_path ''out'') ''dev'') ''kustomization.yaml'']"
    by blast
  with f w k s show ?thesis
    by (intro conjI)
qed


text \<open>
  \<^bold>\<open>C8\<close> does not hold as it is stated. A flag that is there and is not \<^verbatim>\<open>true\<close>, here the
  string \<^verbatim>\<open>'false'\<close>, counts as true in the condition of line 103, and the Ingress is
  rendered. And a value tree whose \<^verbatim>\<open>ingress\<close> key holds \<^verbatim>\<open>null\<close> has no routing mapping, but
  line 103 calls \<^verbatim>\<open>get\<close> on the \<^verbatim>\<open>None\<close> and the run ends in \<^verbatim>\<open>AttributeError\<close>.
\<close>

theorem ingress_flag_counterexample:
  "fst (render_ingress sample_lib (Path [] [''kubernetes''])
          [(''namespace'', VStr ''shop''), (''environment'', VStr ''dev''),
           (''ingress'', VDict [(''enabled'', VStr ''false''), (''name'', VStr ''gateway''),
                                (''host'', VStr ''shop.example''), (''services'', VList [])])]
          sample_world)
     = Inr [Path [] [''kubernetes'', ''ingress.yaml'']]
   \<and> render_ingress sample_lib (Path [] [''kubernetes'']) [(''ingress'', VNone)] sample_world
     = (Inl AttributeError, sample_world)"
  by code_simp

text \<open>
  \<^bold>\<open>C8, amended.\<close> When the value tree has no \<^verbatim>\<open>ingress\<close> key, or has a mapping under it
  whose \<^verbatim>\<open>enabled\<close> flag is absent or false in the sense of a Python condition (\<^verbatim>\<open>false\<close>,
  \<^verbatim>\<open>null\<close>, 0, an empty string, sequence or mapping), the routing step does nothing: it
  builds no context, calls no library, writes nothing, raises nothing, and the run goes on
  as if the step were not there. The step renders only when the mapping is there and its
  flag is true in the sense of a Python condition, and then it writes \<^verbatim>\<open>ingress.yaml\<close>. The
  condition of a flag is its truth value, which for a boolean flag is the flag.
\<close>

theorem ingress_only_when_enabled:
  "((map_of vs ''ingress'' = None
      \<or> (\<exists>ingress. map_of vs ''ingress'' = Some (VDict ingress)
            \<and> (map_of ingress ''enabled'' = None
                \<or> (\<exists>v. map_of ingress ''enabled'' = Some v \<and> \<not> truthy v))))
     \<longrightarrow> render_ingress L od vs w = (Inr [], w)
        \<and> (\<forall>k. then_do (render_ingress L od vs) k w = k [] w))
   \<and> (\<forall>fs w'. render_ingress L od vs w = (Inr fs, w') \<and> (fs \<noteq> [] \<or> w' \<noteq> w) \<longrightarrow>
         (\<exists>ingress v. map_of vs ''ingress'' = Some (VDict ingress)
            \<and> map_of ingress ''enabled'' = Some v \<and> truthy v)
         \<and> fs = [join od ''ingress.yaml''] \<and> writes w' = writes w @ fs)
   \<and> (\<forall>ingress v. map_of vs ''ingress'' = Some (VDict ingress)
         \<and> map_of ingress ''enabled'' = Some v \<longrightarrow> ingress_enabled vs = Inr (truthy v))
   \<and> (\<forall>ingress b. map_of vs ''ingress'' = Some (VDict ingress)
         \<and> map_of ingress ''enabled'' = Some (VBool b) \<longrightarrow> ingress_enabled vs = Inr b)"
proof -
  have a: "render_ingress L od vs w = (Inr [], w)
        \<and> (\<forall>k. then_do (render_ingress L od vs) k w = k [] w)"
    if "map_of vs ''ingress'' = None
      \<or> (\<exists>ingress. map_of vs ''ingress'' = Some (VDict ingress)
            \<and> (map_of ingress ''enabled'' = None
                \<or> (\<exists>v. map_of ingress ''enabled'' = Some v \<and> \<not> truthy v)))"
  proof -
    have "ingress_enabled vs = Inr False"
      using that by (auto simp: ingress_enabled_def)
    then have "render_ingress L od vs w = (Inr [], w)"
      by (rule render_ingress_disabled)
    then show ?thesis
      by (simp add: then_do_continues)
  qed
  have b: "(\<exists>ingress v. map_of vs ''ingress'' = Some (VDict ingress)
            \<and> map_of ingress ''enabled'' = Some v \<and> truthy v)
         \<and> fs = [join od ''ingress.yaml''] \<and> writes w' = writes w @ fs"
    if r: "render_ingress L od vs w = (Inr fs, w')" and n: "fs \<noteq> [] \<or> w' \<noteq> w" for fs w'
  proof -
    have e: "ingress_enabled vs = Inr True" and f: "fs = [join od ''ingress.yaml'']"
      and h: "writes w' = writes w @ fs"
      using render_ingress_Inr [OF r] n by auto
    from e have "\<exists>ingress v. map_of vs ''ingress'' = Some (VDict ingress)
            \<and> map_of ingress ''enabled'' = Some v \<and> truthy v"
      by (auto simp: ingress_enabled_Inr split: option.splits)
    with f h show ?thesis
      by blast
  qed
  have c: "ingress_enabled vs = Inr (truthy v)"
    if "map_of vs ''ingress'' = Some (VDict ingress) \<and> map_of ingress ''enabled'' = Some v"
    for ingress v
    using that by (simp add: ingress_enabled_def)
  have d: "ingress_enabled vs = Inr b"
    if "map_of vs ''ingress'' = Some (VDict ingress) \<and> map_of ingress ''enabled'' = Some (VBool b)"
    for ingress b
    using that by (simp add: ingress_enabled_def)
  from a b c d show ?thesis
    by blast
qed

theorem ingress_only_when_enabled_witness:
  "render_ingress sample_lib (Path [] [''out''])
     [(''ingress'', VDict [(''enabled'', VInt 0)])] sample_world = (Inr [], sample_world)
   \<and> render_ingress sample_lib (Path [] [''out'']) [] sample_world = (Inr [], sample_world)
   \<and> ingress_enabled [(''ingress'', VDict [(''enabled'', VBool True)])] = Inr True"
proof -
  have a: "map_of [(''ingress'', VDict [(''enabled'', VInt 0)])] ''ingress'' = None
      \<or> (\<exists>ingress. map_of [(''ingress'', VDict [(''enabled'', VInt 0)])] ''ingress''
              = Some (VDict ingress)
            \<and> (map_of ingress ''enabled'' = None
                \<or> (\<exists>v. map_of ingress ''enabled'' = Some v \<and> \<not> truthy v)))"
    by simp
  have b: "map_of ([] :: dict) ''ingress'' = None
      \<or> (\<exists>ingress. map_of ([] :: dict) ''ingress'' = Some (VDict ingress)
            \<and> (map_of ingress ''enabled'' = None
                \<or> (\<exists>v. map_of ingress ''enabled'' = Some v \<and> \<not> truthy v)))"
    by simp
  have c: "map_of [(''ingress'', VDict [(''enabled'', VBool True)])] ''ingress''
      = Some (VDict [(''enabled'', VBool True)])
    \<and> map_of [(''enabled'', VBool True)] ''enabled'' = Some (VBool True)"
    by simp
  have "render_ingress sample_lib (Path [] [''out''])
     [(''ingress'', VDict [(''enabled'', VInt 0)])] sample_world = (Inr [], sample_world)"
    using ingress_only_when_enabled
        [of "[(''ingress'', VDict [(''enabled'', VInt 0)])]" sample_lib
            "Path [] [''out'']" sample_world, THEN conjunct1] a
    by blast
  moreover have "render_ingress sample_lib (Path [] [''out'']) [] sample_world
      = (Inr [], sample_world)"
    using ingress_only_when_enabled
        [of "[]" sample_lib "Path [] [''out'']" sample_world, THEN conjunct1] b
    by blast
  moreover have "ingress_enabled [(''ingress'', VDict [(''enabled'', VBool True)])] = Inr True"
    using ingress_only_when_enabled
        [of "[(''ingress'', VDict [(''enabled'', VBool True)])]" sample_lib
            "Path [] [''out'']" sample_world, THEN conjunct2, THEN conjunct2, THEN conjunct2] c
    by blast
  ultimately show ?thesis
    by (intro conjI)
qed

lemma load_values_no_file:
  assumes "\<not> has_file w (values_file environment)"
  shows "load_values L environment w =
     Inl (if path_exists w (values_file environment) then IsADirectoryError else SystemExit 1)"
proof (cases "path_exists w (values_file environment)")
  case False
  then show ?thesis by (simp add: load_values_def)
next
  case True
  then have "path_error (values_file environment) = None"
    "walk w (values_file environment) = None" "has_dir w (values_file environment)"
    using assms by (auto simp: path_exists_def)
  then have "read_file w (values_file environment) = Inl IsADirectoryError"
    by (simp add: read_file_def)
  with True show ?thesis by (simp add: load_values_def)
qed

text \<open>
  \<^bold>\<open>C2\<close> does not hold as it is stated: the output directory is made at line 59,
  before \<^verbatim>\<open>load_values\<close> looks for the document at line 63. In the sample repository,
  which has no \<^verbatim>\<open>prod.yaml\<close>, the run for \<^verbatim>\<open>prod\<close> exits with status 1 and leaves the
  directory \<^verbatim>\<open>out/prod\<close> behind.
\<close>

theorem missing_config_counterexample:
  "\<not> path_exists sample_world (values_file ''prod'')
   \<and> \<not> is_dir sample_world (Path [] [''out'', ''prod''])
   \<and> fst (main sample_lib ''prod'' ''out'' sample_world) = Inl (SystemExit 1)
   \<and> is_dir (snd (main sample_lib ''prod'' ''out'' sample_world)) (Path [] [''out'', ''prod''])"
  by code_simp

text \<open>
  \<^bold>\<open>C2, amended.\<close> When no file is stored at the path of the configuration document, the
  run exits with a status other than 0 and writes no file: the files and the history of
  writes are as before, and no directory is removed. What else happens depends on how far
  the run gets. An environment that is not one of the three choices ends the run with
  status 2 and nothing changed. Otherwise the output directory is made first. When that
  fails, the run ends with the error of \<^verbatim>\<open>mkdir\<close>, in the file system as \<^verbatim>\<open>mkdir\<close> left it.
  When it succeeds, the output directory exists in the file system the run ends in, and
  the failure is \<^verbatim>\<open>sys.exit(1)\<close> when the path of the document names nothing then, and
  \<^verbatim>\<open>IsADirectoryError\<close> when it names a directory.
\<close>

theorem missing_config_exits_after_mkdir:
  assumes "\<not> has_file w (values_file environment)"
  shows "exit_status (fst (main L environment output_dir_arg w)) \<noteq> 0
    \<and> files (snd (main L environment output_dir_arg w)) = files w
    \<and> writes (snd (main L environment output_dir_arg w)) = writes w
    \<and> set (dirs w) \<subseteq> set (dirs (snd (main L environment output_dir_arg w)))
    \<and> (environment \<notin> set [''dev'', ''staging'', ''prod''] \<longrightarrow>
          main L environment output_dir_arg w = (Inl (SystemExit 2), w))
    \<and> (\<forall>e w1. environment \<in> set [''dev'', ''staging'', ''prod'']
          \<and> mkdir_parents w (join (to_path output_dir_arg) environment) = (Inl e, w1) \<longrightarrow>
          main L environment output_dir_arg w = (Inl e, w1))
    \<and> (\<forall>w1. environment \<in> set [''dev'', ''staging'', ''prod'']
          \<and> mkdir_parents w (join (to_path output_dir_arg) environment) = (Inr (), w1) \<longrightarrow>
          snd (main L environment output_dir_arg w) = w1
          \<and> is_dir w1 (join (to_path output_dir_arg) environment)
          \<and> fst (main L environment output_dir_arg w) =
              Inl (if path_exists w1 (values_file environment)
                   then IsADirectoryError else SystemExit 1))"
proof (cases "environment \<in> set [''dev'', ''staging'', ''prod'']")
  case False
  then have "main L environment output_dir_arg w = (Inl (SystemExit 2), w)"
    by (simp add: main_def pure_def)
  with False show ?thesis by simp
next
  case True
  let ?od = "join (to_path output_dir_arg) environment"
  obtain r1 w1 where m: "mkdir_parents w ?od = (r1, w1)"
    by (cases "mkdir_parents w ?od")
  note fr = mkdir_parents_frame [OF m]
  show ?thesis
  proof (cases r1)
    case (Inl e)
    then have "main L environment output_dir_arg w = (Inl e, w1)"
      using True m by (simp add: main_def Let_def then_do_def)
    with fr Inl m True show ?thesis
      by simp
  next
    case (Inr u)
    have nf: "\<not> has_file w1 (values_file environment)"
      using assms fr by (simp add: has_file_def)
    have "main L environment output_dir_arg w =
        (Inl (if path_exists w1 (values_file environment) then IsADirectoryError else SystemExit 1), w1)"
      using True m Inr load_values_no_file [OF nf, of L]
      by (simp add: main_def Let_def then_do_def)
    with fr m Inr True mkdir_parents_is_dir [of w ?od u w1] show ?thesis
      by auto
  qed
qed

theorem missing_config_exits_after_mkdir_witness:
  "exit_status (fst (main sample_lib ''prod'' ''out'' sample_world)) \<noteq> 0
   \<and> files (snd (main sample_lib ''prod'' ''out'' sample_world)) = files sample_world
   \<and> writes (snd (main sample_lib ''prod'' ''out'' sample_world)) = writes sample_world
   \<and> fst (main sample_lib ''prod'' ''out'' sample_world) = Inl (SystemExit 1)"
proof -
  have h: "\<not> has_file sample_world (values_file ''prod'')"
    by code_simp
  have e: "''prod'' \<in> set [''dev'', ''staging'', ''prod'']"
    by simp
  obtain w1 where m: "mkdir_parents sample_world (join (to_path ''out'') ''prod'') = (Inr (), w1)"
    and p: "\<not> path_exists w1 (values_file ''prod'')"
  proof
    show "mkdir_parents sample_world (join (to_path ''out'') ''prod'')
        = (Inr (), snd (mkdir_parents sample_world (join (to_path ''out'') ''prod'')))"
      by code_simp
    show "\<not> path_exists (snd (mkdir_parents sample_world (join (to_path ''out'') ''prod'')))
        (values_file ''prod'')"
      by code_simp
  qed
  note t = missing_config_exits_after_mkdir [OF h, of sample_lib "''out''"]
  from t have a: "exit_status (fst (main sample_lib ''prod'' ''out'' sample_world)) \<noteq> 0"
    and b: "files (snd (main sample_lib ''prod'' ''out'' sample_world)) = files sample_world"
    and c: "writes (snd (main sample_lib ''prod'' ''out'' sample_world)) = writes sample_world"
    by blast+
  from t e m have "fst (main sample_lib ''prod'' ''out'' sample_world) =
      Inl (if path_exists w1 (values_file ''prod'') then IsADirectoryError else SystemExit 1)"
    by blast
  with p have "fst (main sample_lib ''prod'' ''out'' sample_world) = Inl (SystemExit 1)"
    by simp
  with a b c show ?thesis
    by (intro conjI)
qed

subsection \<open>The binder and the output files\<close>

lemma render_nodes_append:
  "render_nodes str call u (xs @ ys) c =
     (case render_nodes str call u xs c of
        Inl e \<Rightarrow> Inl e
      | Inr a \<Rightarrow> (case render_nodes str call u ys c of Inl e \<Rightarrow> Inl e | Inr b \<Rightarrow> Inr (a @ b)))"
  by (induction xs) (auto split: sum.splits)

lemma main_render_fails:
  assumes "environment \<in> set [''dev'', ''staging'', ''prod'']"
    and "mkdir_parents w (join (to_path output_dir_arg) environment) = (Inr (), w0)"
    and "load_values L environment w0 = Inr vs"
    and "run_units L (join (to_path output_dir_arg) environment) (units vs) w0 = (Inl e, w1)"
  shows "main L environment output_dir_arg w = (Inl e, w1)"
  using assms by (simp add: main_def Let_def then_do_def render_all_run_units)

text \<open>
  \<^bold>\<open>C1\<close> does not hold as it is stated. The \<^verbatim>\<open>Environment\<close> of lines 67 to 72 is built
  without \<^verbatim>\<open>undefined=StrictUndefined\<close>, so a template that prints a key the context lacks
  gets the empty string. In the sample repository \<^verbatim>\<open>deployment.j2\<close> prints \<^verbatim>\<open>image\<close>; a
  context without that key is rendered and written, with nothing after \<^verbatim>\<open>image:\<close>, and the
  whole run over the incomplete document succeeds.
\<close>

theorem absent_key_counterexample:
  "sample_templates ''deployment.j2'' =
     Some [TemplateData ''name: '', Output (Name ''service_name''),
           TemplateData '' image: '', Output (Name ''image'')]
   \<and> map_of [(''service_name'', VStr ''worker'')] ''image'' = None
   \<and> fst (render_template sample_lib (Path [] [''kubernetes'']) ''deployment.j2''
            [(''service_name'', VStr ''worker'')] sample_world)
       = Inr (Path [] [''kubernetes'', ''worker-deployment.yaml''])
   \<and> map_of (files (snd (render_template sample_lib (Path [] [''kubernetes'']) ''deployment.j2''
            [(''service_name'', VStr ''worker'')] sample_world)))
         (Path [] [''kubernetes'', ''worker-deployment.yaml''])
       = Some ''name: worker image: ''
   \<and> fst (main sample_lib ''dev'' ''out'' sample_world2) = Inr ()
   \<and> map_of (files (snd (main sample_lib ''dev'' ''out'' sample_world2)))
         (Path [] [''out'', ''dev'', ''worker-deployment.yaml''])
       = Some ''name: worker image: ''"
  by code_simp

text \<open>
  \<^bold>\<open>C1, amended.\<close> With the \<^verbatim>\<open>Environment\<close> as the script builds it, printing a key that
  the context lacks, and that is not a name the engine itself gives a meaning (\<^verbatim>\<open>true\<close>,
  \<^verbatim>\<open>false\<close>, \<^verbatim>\<open>none\<close>, also with a capital, \<^verbatim>\<open>self\<close>, and the globals \<^verbatim>\<open>range\<close>, \<^verbatim>\<open>dict\<close>,
  \<^verbatim>\<open>lipsum\<close>, \<^verbatim>\<open>cycler\<close>, \<^verbatim>\<open>joiner\<close>, \<^verbatim>\<open>namespace\<close>), is no error: the reference renders as the
  empty string, and the template renders as it would without the reference. The render
  fails with \<^verbatim>\<open>UndefinedError\<close> when the absent key is given to the \<^verbatim>\<open>b64encode\<close> filter or to
  the \<^verbatim>\<open>b64encode\<close> function of the context. Whenever the render of a template fails,
  \<^verbatim>\<open>render_template\<close> returns the failure with the file system unchanged and whatever
  follows is not executed. For the run as a whole: when the output directory was made, the
  values were loaded, the units before a unit were rendered and written, and the template
  of that unit fails on its context, the run ends with that failure in the file system as
  the earlier units left it. The files written are one for each earlier unit, in their
  order, and every other file is as before the run: no artifact is written for the failing
  unit or for a later one.
\<close>

theorem absent_key_renders_empty:
  assumes "map_of c k = None" and "k \<notin> set engine_names"
  shows "render_node str call env_undefined c (Output (Name k)) = Inr []
    \<and> template_render str call env_undefined (pre @ Output (Name k) # post) c
        = template_render str call env_undefined (pre @ post) c
    \<and> render_node str call env_undefined c (Output (Filter_b64encode (Name k)))
        = Inl UndefinedError
    \<and> (map_of c ''b64encode'' = Some VLambda \<longrightarrow>
          render_node str call env_undefined c (Output (Call (Name ''b64encode'') (Name k)))
            = Inl UndefinedError)
    \<and> (\<forall>(L :: 'a lib_scheme) w t tpl e od. get_template L w t = Inr tpl \<and> tpl c = Inl e \<longrightarrow>
          render_template L od t c w = (Inl e, w)
          \<and> (\<forall>rest. then_do (render_template L od t c) rest w = (Inl e, w)))
    \<and> (\<forall>(L :: 'a lib_scheme) environment output_dir_arg w w0 vs before t after fs w1 tpl e.
          environment \<in> set [''dev'', ''staging'', ''prod'']
          \<and> mkdir_parents w (join (to_path output_dir_arg) environment) = (Inr (), w0)
          \<and> load_values L environment w0 = Inr vs
          \<and> units vs = before @ (t, Inr c) # after
          \<and> run_units L (join (to_path output_dir_arg) environment) before w0 = (Inr fs, w1)
          \<and> get_template L w1 t = Inr tpl \<and> tpl c = Inl e \<longrightarrow>
          main L environment output_dir_arg w = (Inl e, w1)
          \<and> writes w1 = writes w @ fs
          \<and> length fs = length before
          \<and> dirs w1 = dirs w0
          \<and> (\<forall>p. p \<notin> set fs \<longrightarrow> map_of (files w1) p = map_of (files w) p)
          \<and> (\<exists>ps. produced L (join (to_path output_dir_arg) environment) before w0 ps
                \<and> map fst ps = fs \<and> w1 = apply_writes ps w0))"
proof -
  have l: "lookup_name c k = None"
    using assms by (simp add: lookup_name_context)
  have n: "render_node str call env_undefined c (Output (Name k)) = Inr []"
    using l by (simp add: env_undefined_def)
  then have h: "render_nodes str call env_undefined (Output (Name k) # post) c
      = render_nodes str call env_undefined post c"
    by (simp split: sum.splits)
  have "render_nodes str call env_undefined (pre @ Output (Name k) # post) c
        = render_nodes str call env_undefined (pre @ post) c"
    unfolding render_nodes_append h by (rule refl)
  then have t: "template_render str call env_undefined (pre @ Output (Name k) # post) c
        = template_render str call env_undefined (pre @ post) c"
    by (simp add: template_render_def)
  have f: "render_node str call env_undefined c (Output (Filter_b64encode (Name k)))
      = Inl UndefinedError"
    using l by simp
  have g: "render_node str call env_undefined c (Output (Call (Name ''b64encode'') (Name k)))
            = Inl UndefinedError"
    if "map_of c ''b64encode'' = Some VLambda"
    using that l by (simp add: lookup_name_b64encode call_value_def)
  have r: "render_template L od t c w = (Inl e, w)
          \<and> (\<forall>rest. then_do (render_template L od t c) rest w = (Inl e, w))"
    if "get_template L w t = Inr tpl \<and> tpl c = Inl e"
    for L :: "'a lib_scheme" and w t tpl e od
    using that render_template_render_fails [of L w t tpl c e od]
    by (simp add: then_do_fails)
  have m: "main L environment output_dir_arg w = (Inl e, w1)
          \<and> writes w1 = writes w @ fs
          \<and> length fs = length before
          \<and> dirs w1 = dirs w0
          \<and> (\<forall>p. p \<notin> set fs \<longrightarrow> map_of (files w1) p = map_of (files w) p)
          \<and> (\<exists>ps. produced L (join (to_path output_dir_arg) environment) before w0 ps
                \<and> map fst ps = fs \<and> w1 = apply_writes ps w0)"
    if a: "environment \<in> set [''dev'', ''staging'', ''prod'']
          \<and> mkdir_parents w (join (to_path output_dir_arg) environment) = (Inr (), w0)
          \<and> load_values L environment w0 = Inr vs
          \<and> units vs = before @ (t, Inr c) # after
          \<and> run_units L (join (to_path output_dir_arg) environment) before w0 = (Inr fs, w1)
          \<and> get_template L w1 t = Inr tpl \<and> tpl c = Inl e"
    for L :: "'a lib_scheme" and environment output_dir_arg w w0 vs before t after fs w1 tpl e
  proof -
    let ?od = "join (to_path output_dir_arg) environment"
    from a have env: "environment \<in> set [''dev'', ''staging'', ''prod'']"
      and mk: "mkdir_parents w ?od = (Inr (), w0)"
      and ld: "load_values L environment w0 = Inr vs"
      and us: "units vs = before @ (t, Inr c) # after"
      and ru: "run_units L ?od before w0 = (Inr fs, w1)"
      and gt: "get_template L w1 t = Inr tpl" and fl: "tpl c = Inl e"
      by blast+
    have "run_units L ?od (units vs) w0 = (Inl e, w1)"
      unfolding us using ru gt fl by (rule run_units_fail_stop)
    with env mk ld have 1: "main L environment output_dir_arg w = (Inl e, w1)"
      by (rule main_render_fails)
    obtain ps where ps: "produced L ?od before w0 ps" "map fst ps = fs"
      "w1 = apply_writes ps w0"
      using run_units_Inr [OF ru] by blast
    have w0: "writes w0 = writes w" "files w0 = files w"
      using mkdir_parents_frame [OF mk] by simp_all
    have 2: "writes w1 = writes w @ fs"
      using ps(2,3) w0 by (simp add: writes_apply_writes)
    have 3: "length fs = length before"
      using produced_length [OF ps(1)] ps(2) by auto
    have 4: "dirs w1 = dirs w0"
      using ps(3) by (simp add: dirs_apply_writes)
    have 5: "map_of (files w1) p = map_of (files w) p" if "p \<notin> set fs" for p
    proof -
      have "p \<notin> fst ` set ps"
        using that by (simp add: ps(2) [symmetric])
      then show ?thesis
        using ps(3) w0 by (simp add: files_apply_writes_other)
    qed
    from 1 2 3 4 5 ps show ?thesis
      by blast
  qed
  from g have g': "map_of c ''b64encode'' = Some VLambda \<longrightarrow>
          render_node str call env_undefined c (Output (Call (Name ''b64encode'') (Name k)))
            = Inl UndefinedError"
    by (rule impI)
  have r': "\<forall>(L :: 'a lib_scheme) w t tpl e od. get_template L w t = Inr tpl \<and> tpl c = Inl e \<longrightarrow>
          render_template L od t c w = (Inl e, w)
          \<and> (\<forall>rest. then_do (render_template L od t c) rest w = (Inl e, w))"
    by (intro allI impI) (rule r)
  have m': "\<forall>(L :: 'a lib_scheme) environment output_dir_arg w w0 vs before t after fs w1 tpl e.
          environment \<in> set [''dev'', ''staging'', ''prod'']
          \<and> mkdir_parents w (join (to_path output_dir_arg) environment) = (Inr (), w0)
          \<and> load_values L environment w0 = Inr vs
          \<and> units vs = before @ (t, Inr c) # after
          \<and> run_units L (join (to_path output_dir_arg) environment) before w0 = (Inr fs, w1)
          \<and> get_template L w1 t = Inr tpl \<and> tpl c = Inl e \<longrightarrow>
          main L environment output_dir_arg w = (Inl e, w1)
          \<and> writes w1 = writes w @ fs
          \<and> length fs = length before
          \<and> dirs w1 = dirs w0
          \<and> (\<forall>p. p \<notin> set fs \<longrightarrow> map_of (files w1) p = map_of (files w) p)
          \<and> (\<exists>ps. produced L (join (to_path output_dir_arg) environment) before w0 ps
                \<and> map fst ps = fs \<and> w1 = apply_writes ps w0)"
    by (intro allI impI) (rule m)
  from n t f g' r' m' show ?thesis
    by (intro conjI)
qed

theorem absent_key_renders_empty_witness:
  "render_node sample_str sample_call env_undefined [(''service_name'', VStr ''worker'')]
     (Output (Name ''image'')) = Inr []
   \<and> render_node sample_str sample_call env_undefined [(''service_name'', VStr ''worker'')]
     (Output (Filter_b64encode (Name ''image''))) = Inl UndefinedError
   \<and> fst (main sample_lib ''staging'' ''out'' sample_world2) = Inl UndefinedError
   \<and> writes (snd (main sample_lib ''staging'' ''out'' sample_world2)) =
       [Path [] [''out'', ''staging'', ''postgres-statefulset.yaml''],
        Path [] [''out'', ''staging'', ''api-deployment.yaml'']]"
proof -
  have h: "map_of [(''service_name'', VStr ''worker'')] ''image'' = None"
    by simp
  have e: "''image'' \<notin> set engine_names"
    by code_simp
  have first: "render_node sample_str sample_call env_undefined [(''service_name'', VStr ''worker'')]
       (Output (Name ''image'')) = Inr []
     \<and> render_node sample_str sample_call env_undefined [(''service_name'', VStr ''worker'')]
       (Output (Filter_b64encode (Name ''image''))) = Inl UndefinedError"
    using absent_key_renders_empty [OF h e, of sample_str sample_call "[]" "[]"] by blast
  let ?od = "join (to_path ''out'') ''staging''"
  let ?w0 = "snd (mkdir_parents sample_world2 ?od)"
  let ?vs = "sample_no_token_values"
  let ?c = "projr (service_context ?vs ''python_service'')"
  let ?before = "take 2 (units ?vs)"
  let ?after = "drop 3 (units ?vs)"
  let ?fs = "[Path [] [''out'', ''staging'', ''postgres-statefulset.yaml''],
        Path [] [''out'', ''staging'', ''api-deployment.yaml'']]"
  let ?w1 = "snd (run_units sample_lib ?od ?before ?w0)"
  let ?tpl = "template_render sample_str sample_call env_undefined
      [TemplateData ''service: '', Output (Name ''service_name''),
       TemplateData '' token: '', Output (Call (Name ''b64encode'') (Name ''token''))]"
  have k1: "map_of ?c ''token'' = None"
    by code_simp
  have k2: "''token'' \<notin> set engine_names"
    by code_simp
  have a1: "''staging'' \<in> set [''dev'', ''staging'', ''prod'']"
    by simp
  have "fst (mkdir_parents sample_world2 ?od) = Inr ()"
    by code_simp
  then have a2: "mkdir_parents sample_world2 ?od = (Inr (), ?w0)"
    by (simp add: prod_eq_iff)
  have a3: "load_values sample_lib ''staging'' ?w0 = Inr ?vs"
    by code_simp
  have a4: "units ?vs = ?before @ (''service.j2'', Inr ?c) # ?after"
    by code_simp
  have "fst (run_units sample_lib ?od ?before ?w0) = Inr ?fs"
    by code_simp
  then have a5: "run_units sample_lib ?od ?before ?w0 = (Inr ?fs, ?w1)"
    by (simp add: prod_eq_iff)
  have a6: "get_template sample_lib ?w1 ''service.j2'' = Inr ?tpl"
    by (simp add: sample_lib_def sample_get_template_def sample_templates_def)
  have a7: "?tpl ?c = Inl UndefinedError"
    by code_simp
  have "main sample_lib ''staging'' ''out'' sample_world2 = (Inl UndefinedError, ?w1)
      \<and> writes ?w1 = writes sample_world2 @ ?fs"
    using absent_key_renders_empty [OF k1 k2, of sample_str sample_call "[]" "[]"]
      a1 a2 a3 a4 a5 a6 a7
    by blast
  moreover have "writes sample_world2 = []"
    by (simp add: sample_world2_def)
  ultimately have "fst (main sample_lib ''staging'' ''out'' sample_world2) = Inl UndefinedError"
    and "writes (snd (main sample_lib ''staging'' ''out'' sample_world2)) = ?fs"
    by simp_all
  with first show ?thesis
    by blast
qed

text \<open>
  \<^bold>\<open>C3\<close> does not hold as it is stated: the script has no check of the output names and
  opens every output file with mode \<^verbatim>\<open>'w'\<close>. In the sample repository the staging document
  gives both services the name \<^verbatim>\<open>api\<close>; the run succeeds, \<^verbatim>\<open>api-deployment.yaml\<close> and
  \<^verbatim>\<open>api-service.yaml\<close> are written twice, and the deployment file holds the text of the
  second service.
\<close>

theorem same_name_counterexample:
  "fst (main sample_lib ''staging'' ''out'' sample_world) = Inr ()
   \<and> writes (snd (main sample_lib ''staging'' ''out'' sample_world)) =
       [Path [] [''out'', ''staging'', ''postgres-statefulset.yaml''],
        Path [] [''out'', ''staging'', ''api-deployment.yaml''],
        Path [] [''out'', ''staging'', ''api-service.yaml''],
        Path [] [''out'', ''staging'', ''api-deployment.yaml''],
        Path [] [''out'', ''staging'', ''api-service.yaml''],
        Path [] [''out'', ''staging'', ''kustomization.yaml'']]
   \<and> map_of (files (snd (main sample_lib ''staging'' ''out'' sample_world)))
         (Path [] [''out'', ''staging'', ''api-deployment.yaml''])
       = Some ''name: api image: node:3''"
  by code_simp

text \<open>
  \<^bold>\<open>C3, amended.\<close> When a unit derives the output name of a unit that was written earlier
  in the run, it is rendered and written like any other: no error is raised for the name,
  the file of the earlier unit gets the text of the later one, and the path is recorded
  once more. As for any unit, a text that cannot be encoded, because it has a lone
  surrogate, ends the run with \<^verbatim>\<open>UnicodeEncodeError\<close>; the file of the earlier unit is then
  left empty. The later unit runs in any file system with the directories of the earlier
  one, which a run never changes after its first step.
\<close>

theorem same_name_overwrites:
  assumes "render_template L od t1 c1 w = (Inr p, w1)"
    and "dirs w2 = dirs w1"
    and "output_name (py_str L) t2 c2 = output_name (py_str L) t1 c1"
    and "get_template L w2 t2 = Inr tpl" and "tpl c2 = Inr rendered"
  shows "(\<not> has_surrogate rendered \<longrightarrow>
        render_template L od t2 c2 w2
          = (Inr p, w2\<lparr>files := file_set (files w2) p rendered, writes := writes w2 @ [p]\<rparr>)
        \<and> map_of (files (snd (render_template L od t2 c2 w2))) p = Some rendered)
    \<and> (has_surrogate rendered \<longrightarrow>
        render_template L od t2 c2 w2
          = (Inl UnicodeEncodeError, w2\<lparr>files := file_set (files w2) p []\<rparr>)
        \<and> map_of (files (snd (render_template L od t2 c2 w2))) p = Some [])
    \<and> has_file w1 p"
proof -
  obtain r1 where p: "p = join od (output_name (py_str L) t1 c1)"
    and w: "write_file w p r1 = (Inr (), w1)"
    using assms(1) by (auto simp: render_template_Inr)
  then have a: "path_error p = None" "walk w p = None" "\<not> has_dir w p" "dirs w1 = dirs w"
      "files w1 = file_set (files w) p r1"
    by (auto simp: write_file_Inr)
  then have "walk w2 p = None" "\<not> has_dir w2 p"
    using assms(2) by (auto simp: walk_None has_dir_def)
  with a(1) have "write_file w2 p rendered
      = (if has_surrogate rendered
         then (Inl UnicodeEncodeError, w2\<lparr>files := file_set (files w2) p []\<rparr>)
         else (Inr (), w2\<lparr>files := file_set (files w2) p rendered, writes := writes w2 @ [p]\<rparr>))"
    by (rule write_file_succeeds)
  then have "render_template L od t2 c2 w2
      = (if has_surrogate rendered
         then (Inl UnicodeEncodeError, w2\<lparr>files := file_set (files w2) p []\<rparr>)
         else (Inr p, w2\<lparr>files := file_set (files w2) p rendered, writes := writes w2 @ [p]\<rparr>))"
    using assms(3-5) p by (simp add: render_template_rendered)
  moreover have "has_file w1 p"
    using a by (simp add: has_file_def map_of_file_set)
  ultimately show ?thesis
    by (simp add: map_of_file_set)
qed

theorem same_name_overwrites_witness:
  "fst (render_template sample_lib (Path [] [''kubernetes'']) ''deployment.j2''
          [(''service_name'', VStr ''api''), (''image'', VStr ''node:3'')]
          (snd (render_template sample_lib (Path [] [''kubernetes'']) ''deployment.j2''
                  [(''service_name'', VStr ''api''), (''image'', VStr ''api:2'')] sample_world)))
     = Inr (Path [] [''kubernetes'', ''api-deployment.yaml''])
   \<and> map_of (files (snd (render_template sample_lib (Path [] [''kubernetes'']) ''deployment.j2''
          [(''service_name'', VStr ''api''), (''image'', VStr ''node:3'')]
          (snd (render_template sample_lib (Path [] [''kubernetes'']) ''deployment.j2''
                  [(''service_name'', VStr ''api''), (''image'', VStr ''api:2'')] sample_world)))))
         (Path [] [''kubernetes'', ''api-deployment.yaml''])
     = Some ''name: api image: node:3''"
proof -
  let ?od = "Path [] [''kubernetes'']"
  let ?c1 = "[(''service_name'', VStr ''api''), (''image'', VStr ''api:2'')]"
  let ?c2 = "[(''service_name'', VStr ''api''), (''image'', VStr ''node:3'')]"
  let ?w1 = "snd (render_template sample_lib ?od ''deployment.j2'' ?c1 sample_world)"
  let ?p = "Path [] [''kubernetes'', ''api-deployment.yaml'']"
  let ?tpl = "template_render sample_str sample_call env_undefined
      [TemplateData ''name: '', Output (Name ''service_name''),
       TemplateData '' image: '', Output (Name ''image'')]"
  have "fst (render_template sample_lib ?od ''deployment.j2'' ?c1 sample_world) = Inr ?p"
    by code_simp
  then have h1: "render_template sample_lib ?od ''deployment.j2'' ?c1 sample_world = (Inr ?p, ?w1)"
    by (simp add: prod_eq_iff)
  have h2: "dirs ?w1 = dirs ?w1"
    by (rule refl)
  have h3: "output_name (py_str sample_lib) ''deployment.j2'' ?c2
      = output_name (py_str sample_lib) ''deployment.j2'' ?c1"
    by code_simp
  have h4: "get_template sample_lib ?w1 ''deployment.j2'' = Inr ?tpl"
    by (simp add: sample_lib_def sample_get_template_def sample_templates_def)
  have h5: "?tpl ?c2 = Inr ''name: api image: node:3''"
    by code_simp
  have h6: "\<not> has_surrogate ''name: api image: node:3''"
    by code_simp
  note t = same_name_overwrites [OF h1 h2 h3 h4 h5, THEN conjunct1, rule_format, OF h6]
  have "fst (render_template sample_lib ?od ''deployment.j2'' ?c2 ?w1) = Inr ?p"
    by (simp only: t [THEN conjunct1] fst_conv)
  then show ?thesis
    using t [THEN conjunct2] by (rule conjI)
qed

end
